theory Spec2Isabelle
  imports Complex_Main
begin

section \<open>Values of the parsed configuration document\<close>

text \<open>
  The configuration file is read with \<^verbatim>\<open>jsoncparser.parse\<close>, whose result has the
  TypeScript type \<^verbatim>\<open>any\<close>: the declared type \<^verbatim>\<open>TaskOptions[]\<close> of the task
  list is not checked at run time. The model therefore works on JavaScript values as the
  parser can produce them. A number is the rational a finite double denotes (so \<open>+0\<close> and
  \<open>-0\<close> coincide, as they do under \<^verbatim>\<open>===\<close> and as keys of a \<^verbatim>\<open>Map\<close>). An object
  is the list of its own properties, read with \<open>map_of\<close>.
\<close>

datatype jsval =
    JUndefined
  | JNull
  | JBool bool
  | JNum rat
  | JStr string
  | JArr "jsval list"
  | JObj "(string \<times> jsval) list"

text \<open>
  What the code can throw: the \<^verbatim>\<open>TypeError\<close> of a property read on \<^verbatim>\<open>null\<close> or
  \<^verbatim>\<open>undefined\<close> and of \<^verbatim>\<open>for ... of\<close> over a value that is not iterable, whatever
  the client's callback throws, and the rejection of a watch registration.
\<close>

datatype exn = TypeError | ClientError string | WatchError

text \<open>
  \<^verbatim>\<open>v.p\<close> and \<^verbatim>\<open>v['p']\<close> for a property name that no prototype defines and that
  is not an index (the file reads \<^verbatim>\<open>'tasks'\<close> and \<^verbatim>\<open>label\<close> only): a
  \<^verbatim>\<open>TypeError\<close> on \<^verbatim>\<open>undefined\<close> and \<^verbatim>\<open>null\<close>, the own property of an object,
  \<^verbatim>\<open>undefined\<close> in every other case.
\<close>

fun get_prop :: "jsval \<Rightarrow> string \<Rightarrow> exn + jsval" where
  "get_prop JUndefined p = Inl TypeError"
| "get_prop JNull p = Inl TypeError"
| "get_prop (JObj kvs) p = Inr (case map_of kvs p of None \<Rightarrow> JUndefined | Some v \<Rightarrow> v)"
| "get_prop (JBool b) p = Inr JUndefined"
| "get_prop (JNum n) p = Inr JUndefined"
| "get_prop (JStr s) p = Inr JUndefined"
| "get_prop (JArr xs) p = Inr JUndefined"

text \<open>
  \<^verbatim>\<open>a === b\<close> for two values read at different places of one parsed document: primitives
  are compared by value; two arrays or objects are two different references, never equal.
  The keys of a \<^verbatim>\<open>Map\<close> are compared the same way on these values.
\<close>

fun strict_eq :: "jsval \<Rightarrow> jsval \<Rightarrow> bool" where
  "strict_eq JUndefined JUndefined = True"
| "strict_eq JNull JNull = True"
| "strict_eq (JBool a) (JBool b) = (a = b)"
| "strict_eq (JNum a) (JNum b) = (a = b)"
| "strict_eq (JStr a) (JStr b) = (a = b)"
| "strict_eq _ _ = False"

text \<open>
  The values \<^verbatim>\<open>for (const x of v)\<close> runs through: the elements of an array, the
  characters of a string (each a string of its own); any other value is not iterable.
\<close>

fun for_of :: "jsval \<Rightarrow> exn + jsval list" where
  "for_of (JArr xs) = Inr xs"
| "for_of (JStr s) = Inr (map (\<lambda>c. JStr [c]) s)"
| "for_of JUndefined = Inl TypeError"
| "for_of JNull = Inl TypeError"
| "for_of (JBool b) = Inl TypeError"
| "for_of (JNum n) = Inl TypeError"
| "for_of (JObj kvs) = Inl TypeError"

section \<open>The collaborators\<close>

text \<open>\<^verbatim>\<open>ParseError\<close> of jsonc-parser: the fields the code reads.\<close>

record ParseError =
  pe_error :: nat
  pe_offset :: nat
  pe_length :: nat

datatype FileChangeType = UPDATED | ADDED | DELETED

record FileChange =
  change_uri :: string
  change_type :: FileChangeType

text \<open>
  The lines handed to the logger, one constructor for each template of the source:
  \<^item> \<open>Error_parsing uri error length offset\<close>:
    \<^verbatim>\<open>Error parsing ${uri}: error: ${e.error}, length:  ${e.length}, offset:  ${e.offset}\<close>
  \<^item> \<open>Error_reading uri\<close>: \<^verbatim>\<open>Error(s) reading config file: ${uri}\<close>
  \<^item> \<open>Error_duplicate file label\<close>:
    \<^verbatim>\<open>Error parsing ${this.TASKFILE}: found duplicate entry for label: ${task.label}\<close>
  \<^item> \<open>Warn_missing file rootUri\<close>:
    \<^verbatim>\<open>Config file ${this.TASKFILE} does not exist under ${rootUri}\<close> (a warning)
  \<^item> \<open>Error_thrown err\<close>: \<^verbatim>\<open>this.logger.error(err)\<close> of the change handler.
\<close>

datatype log_entry =
    Error_parsing string nat nat nat
  | Error_reading string
  | Error_duplicate string jsval
  | Warn_missing string string
  | Error_thrown exn

text \<open>
  The file service, the parser and the watch service, as the answers they give:
  \<open>fs_resolveContent\<close> is \<open>None\<close> where the promise of \<^verbatim>\<open>resolveContent\<close> rejects,
  \<open>parse\<close> returns the collected syntax errors with the parsed value, \<open>watch_rejects\<close>
  holds of the paths for which the promise of \<^verbatim>\<open>watchFileChanges\<close> rejects.
\<close>

record env =
  fs_exists :: "string \<Rightarrow> bool"
  fs_resolveContent :: "string \<Rightarrow> string option"
  stripComments :: "string \<Rightarrow> string"
  parse :: "string \<Rightarrow> ParseError list \<times> jsval"
  watch_rejects :: "string \<Rightarrow> bool"

text \<open>
  Modelled from the spec: the watch service (\<^verbatim>\<open>FileSystemWatcherServer\<close> of
  @theia/filesystem) is not among the sources. Its contract is
  \<^verbatim>\<open>watchPath(path) -> watchHandle\<close>, \<^verbatim>\<open>unwatchPath(watchHandle) -> void\<close>, and the
  spec speaks of "watch registration success": a registration either succeeds, and the
  model records it as live and hands out a fresh handle, or it is rejected, and nothing
  is registered.
\<close>

record FileSystemWatcherServer =
  watches :: "(nat \<times> string) list"
  watcherSequence :: nat

definition watchFileChanges ::
  "env \<Rightarrow> string \<Rightarrow> FileSystemWatcherServer \<Rightarrow> exn + nat \<times> FileSystemWatcherServer" where
  "watchFileChanges ev u w =
     (if watch_rejects ev u then Inl WatchError
      else Inr (watcherSequence w,
                w\<lparr>watches := watches w @ [(watcherSequence w, u)],
                  watcherSequence := Suc (watcherSequence w)\<rparr>))"

definition unwatchFileChanges :: "nat \<Rightarrow> FileSystemWatcherServer \<Rightarrow> FileSystemWatcherServer" where
  "unwatchFileChanges watchId w = w\<lparr>watches := filter (\<lambda>(i, u). i \<noteq> watchId) (watches w)\<rparr>"

section \<open>The task map\<close>

text \<open>
  A JavaScript \<^verbatim>\<open>Map\<close> keeps its entries in insertion order; \<^verbatim>\<open>set\<close> on a key
  that is present replaces the value in place.
\<close>

fun Map_set :: "jsval \<Rightarrow> jsval \<Rightarrow> (jsval \<times> jsval) list \<Rightarrow> (jsval \<times> jsval) list" where
  "Map_set k v [] = [(k, v)]"
| "Map_set k v ((k', v') # m) =
     (if strict_eq k' k then (k', v) # m else (k', v') # Map_set k v m)"

fun Map_get :: "jsval \<Rightarrow> (jsval \<times> jsval) list \<Rightarrow> jsval option" where
  "Map_get k [] = None"
| "Map_get k ((k', v') # m) = (if strict_eq k' k then Some v' else Map_get k m)"

definition Map_has :: "jsval \<Rightarrow> (jsval \<times> jsval) list \<Rightarrow> bool" where
  "Map_has k m = (Map_get k m \<noteq> None)"

section \<open>TaskConfigurations\<close>

text \<open>
  The fields of the class, with the collaborators it holds (watch service, logger) and
  what leaves it: \<open>notified\<close> lists the label lists passed to the client's
  \<^verbatim>\<open>taskConfigurationChanged\<close>, \<open>unhandled\<close> the rejections of promises nobody awaits.
  The client is its callback: the exception it throws on a label list, if any.
  \<open>toDispose\<close> holds the watch handles whose \<^verbatim>\<open>unwatchFileChanges\<close> was pushed to the
  disposable collection.

  \<^verbatim>\<open>refreshTasks\<close> is \<^verbatim>\<open>async\<close> and both of its callers call it without
  \<^verbatim>\<open>await\<close>: the call runs up to the first \<^verbatim>\<open>await\<close> (the request
  \<^verbatim>\<open>fileSystem.exists(uri)\<close> inside \<^verbatim>\<open>readTasks\<close>), and the caller goes on; the rest
  of the body runs as a later job, once the file service has answered. \<open>pending\<close> lists
  the jobs that have started and not finished, each with the uri it was started for.

  \<^verbatim>\<open>watchConfigurationFile\<close> awaits the watch registration in the middle of its body,
  outside any \<^verbatim>\<open>try\<close>: the model cuts it there, so that other operations can run
  between the two parts, and a rejected registration makes the call raise. The change
  handler runs to its return with no job in between.
\<close>

record TaskConfigurations =
  tasksMap :: "(jsval \<times> jsval) list"
  watchedConfigFileUri :: "string option"
  client :: "(jsval list \<Rightarrow> exn option) option"
  toDispose :: "nat list"
  watcherServer :: FileSystemWatcherServer
  logger :: "log_entry list"
  notified :: "jsval list list"
  pending :: "string list"
  unhandled :: "exn list"

definition TASKFILEPATH :: string where
  "TASKFILEPATH = ''.theia''"

definition TASKFILE :: string where
  "TASKFILE = ''tasks.json''"

text \<open>The constructor: an empty map, no watched file, no client.\<close>

definition new_TaskConfigurations :: "FileSystemWatcherServer \<Rightarrow> TaskConfigurations" where
  "new_TaskConfigurations w =
     \<lparr>tasksMap = [], watchedConfigFileUri = None, client = None, toDispose = [],
      watcherServer = w, logger = [], notified = [], pending = [], unhandled = []\<rparr>"

definition setClient :: "(jsval list \<Rightarrow> exn option) \<Rightarrow> TaskConfigurations \<Rightarrow> TaskConfigurations" where
  "setClient c s = s\<lparr>client := Some c\<rparr>"

text \<open>
  Modelled from the spec: \<^verbatim>\<open>DisposableCollection\<close> (of @theia/core) is not among the
  sources. \<^verbatim>\<open>dispose()\<close> "releases the watch registration, clears the map, clears the
  client reference": every pushed disposable runs and the collection is left empty. The
  disposables are the watch service itself, the one that clears map and client, and one
  \<^verbatim>\<open>unwatchFileChanges(watchId)\<close> for each watch registered.
\<close>

definition dispose :: "TaskConfigurations \<Rightarrow> TaskConfigurations" where
  "dispose s =
     s\<lparr>tasksMap := [], client := None, toDispose := [],
       watcherServer := (fold unwatchFileChanges (toDispose s) (watcherServer s))\<lparr>watches := []\<rparr>\<rparr>"

definition getTaskLabels :: "TaskConfigurations \<Rightarrow> jsval list" where
  "getTaskLabels s = map fst (tasksMap s)"

definition getTask :: "string \<Rightarrow> TaskConfigurations \<Rightarrow> jsval option" where
  "getTask taskLabel s =
     (if Map_has (JStr taskLabel) (tasksMap s) then Map_get (JStr taskLabel) (tasksMap s)
      else None)"

text \<open>
  Modelled from the spec: the class \<^verbatim>\<open>URI\<close> (of @theia/core) is not among the sources;
  the configuration file of a root is \<^verbatim>\<open><root>/.theia/tasks.json\<close>.
\<close>

definition URI_resolve :: "string \<Rightarrow> string \<Rightarrow> string" where
  "URI_resolve base p = base @ ''/'' @ p"

definition getConfigFileUri :: "string \<Rightarrow> string" where
  "getConfigFileUri rootDir = URI_resolve (URI_resolve rootDir TASKFILEPATH) TASKFILE"

subsection \<open>Duplicate labels\<close>

text \<open>
  \<^verbatim>\<open>filteredTasks.some(t => t.label === task.label)\<close>: the callback is not called on
  an empty array; it reads \<^verbatim>\<open>t.label\<close>, then \<^verbatim>\<open>task.label\<close>, and stops at the first
  \<^verbatim>\<open>true\<close>.
\<close>

fun some_label :: "jsval list \<Rightarrow> jsval \<Rightarrow> exn + bool" where
  "some_label [] task = Inr False"
| "some_label (t # ts) task =
     (case get_prop t ''label'' of
        Inl e \<Rightarrow> Inl e
      | Inr lt \<Rightarrow>
          (case get_prop task ''label'' of
             Inl e \<Rightarrow> Inl e
           | Inr l \<Rightarrow> if strict_eq lt l then Inr True else some_label ts task))"

text \<open>The loop of \<^verbatim>\<open>filterDuplicates\<close>, with \<^verbatim>\<open>filteredTasks\<close> and the logger passed along.\<close>

fun filterDuplicates_loop ::
  "jsval list \<Rightarrow> jsval list \<Rightarrow> log_entry list \<Rightarrow> (exn + jsval list) \<times> log_entry list" where
  "filterDuplicates_loop [] filteredTasks lg = (Inr filteredTasks, lg)"
| "filterDuplicates_loop (task # rest) filteredTasks lg =
     (case some_label filteredTasks task of
        Inl e \<Rightarrow> (Inl e, lg)
      | Inr True \<Rightarrow>
          (case get_prop task ''label'' of
             Inl e \<Rightarrow> (Inl e, lg)
           | Inr l \<Rightarrow> filterDuplicates_loop rest filteredTasks (lg @ [Error_duplicate TASKFILE l]))
      | Inr False \<Rightarrow> filterDuplicates_loop rest (filteredTasks @ [task]) lg)"

definition filterDuplicates ::
  "jsval \<Rightarrow> log_entry list \<Rightarrow> (exn + jsval list) \<times> log_entry list" where
  "filterDuplicates tasks lg =
     (case for_of tasks of
        Inl e \<Rightarrow> (Inl e, lg)
      | Inr ts \<Rightarrow> filterDuplicates_loop ts [] lg)"

subsection \<open>Reading and refreshing\<close>

text \<open>
  \<^verbatim>\<open>readTasks\<close>: \<open>None\<close> is the \<^verbatim>\<open>undefined\<close> it returns. Every exception raised
  inside the \<^verbatim>\<open>try\<close> block, the rejected read and the \<^verbatim>\<open>TypeError\<close>s of
  \<^verbatim>\<open>tasks['tasks']\<close> and of \<^verbatim>\<open>filterDuplicates\<close>, ends in the \<^verbatim>\<open>catch\<close>.
\<close>

definition readTasks ::
  "env \<Rightarrow> string \<Rightarrow> log_entry list \<Rightarrow> jsval list option \<times> log_entry list" where
  "readTasks ev u lg =
     (if \<not> fs_exists ev u then (None, lg)
      else
        (case fs_resolveContent ev u of
           None \<Rightarrow> (None, lg @ [Error_reading u])
         | Some content \<Rightarrow>
             (let strippedContent = stripComments ev content;
                  (errors, tasks) = parse ev strippedContent
              in if errors \<noteq> [] then
                   (None, lg @ map (\<lambda>e. Error_parsing u (pe_error e) (pe_length e) (pe_offset e)) errors)
                 else
                   (case get_prop tasks ''tasks'' of
                      Inl e \<Rightarrow> (None, lg @ [Error_reading u])
                    | Inr ts \<Rightarrow>
                        (case filterDuplicates ts lg of
                           (Inl e, lg') \<Rightarrow> (None, lg' @ [Error_reading u])
                         | (Inr filteredTasks, lg') \<Rightarrow> (Some filteredTasks, lg'))))))"

text \<open>
  The loop of \<^verbatim>\<open>refreshTasks\<close>: \<^verbatim>\<open>this.tasksMap.set(task.label, task)\<close> for each task.
  A \<^verbatim>\<open>TypeError\<close> of \<^verbatim>\<open>task.label\<close> ends the job; nobody awaits its promise.
\<close>

fun set_tasks :: "jsval list \<Rightarrow> TaskConfigurations \<Rightarrow> TaskConfigurations" where
  "set_tasks [] s = s"
| "set_tasks (task # rest) s =
     (case get_prop task ''label'' of
        Inl e \<Rightarrow> s\<lparr>unhandled := unhandled s @ [e]\<rparr>
      | Inr l \<Rightarrow> set_tasks rest (s\<lparr>tasksMap := Map_set l task (tasksMap s)\<rparr>))"

text \<open>
  The call \<^verbatim>\<open>this.refreshTasks()\<close> without \<^verbatim>\<open>await\<close>: the job starts with the value
  \<^verbatim>\<open>this.watchedConfigFileUri\<close> has now. Both callers call it with the field set (after
  assigning it, and for a change whose uri \<^verbatim>\<open>===\<close> the field); no job starts
  otherwise.
\<close>

definition refreshTasks_call :: "TaskConfigurations \<Rightarrow> TaskConfigurations" where
  "refreshTasks_call s =
     (case watchedConfigFileUri s of
        None \<Rightarrow> s
      | Some u \<Rightarrow> s\<lparr>pending := pending s @ [u]\<rparr>)"

text \<open>
  The rest of \<^verbatim>\<open>refreshTasks\<close>, run when the file service has answered: an array
  (also an empty one) is truthy, \<^verbatim>\<open>undefined\<close> is not.
\<close>

definition refreshTasks_resume :: "env \<Rightarrow> string \<Rightarrow> TaskConfigurations \<Rightarrow> TaskConfigurations" where
  "refreshTasks_resume ev u s =
     (case readTasks ev u (logger s) of
        (None, lg) \<Rightarrow> s\<lparr>logger := lg\<rparr>
      | (Some tasksOptionsArray, lg) \<Rightarrow> set_tasks tasksOptionsArray (s\<lparr>logger := lg, tasksMap := []\<rparr>))"

text \<open>The \<open>i\<close>-th pending job finishes (jobs may finish in any order).\<close>

definition resume :: "env \<Rightarrow> nat \<Rightarrow> TaskConfigurations \<Rightarrow> TaskConfigurations" where
  "resume ev i s =
     (if i < length (pending s) then
        refreshTasks_resume ev (pending s ! i)
          (s\<lparr>pending := take i (pending s) @ drop (Suc i) (pending s)\<rparr>)
      else s)"

text \<open>All pending jobs finish, the oldest first.\<close>

definition resume_all :: "env \<Rightarrow> TaskConfigurations \<Rightarrow> TaskConfigurations" where
  "resume_all ev s = fold (\<lambda>u. refreshTasks_resume ev u) (pending s) (s\<lparr>pending := []\<rparr>)"

subsection \<open>Watching and change events\<close>

text \<open>
  The end of \<^verbatim>\<open>watchConfigurationFile\<close>: the existence check, the warning and the
  returned boolean.
\<close>

definition watchConfigurationFile_exists ::
  "env \<Rightarrow> string \<Rightarrow> TaskConfigurations \<Rightarrow> bool \<times> TaskConfigurations" where
  "watchConfigurationFile_exists ev rootUri s =
     (if fs_exists ev (getConfigFileUri rootUri) then (True, s)
      else (False, s\<lparr>logger := logger s @ [Warn_missing TASKFILE rootUri]\<rparr>))"

text \<open>
  \<^verbatim>\<open>watchConfigurationFile\<close> up to its first \<^verbatim>\<open>await\<close>. When the computed path
  differs from the watched one, the field is assigned, \<^verbatim>\<open>watchFileChanges\<close> is requested
  and the call waits for the answer: the result \<open>None\<close>. Otherwise the call goes on to
  the existence check and returns its boolean.
\<close>

definition watchConfigurationFile_call ::
  "env \<Rightarrow> string \<Rightarrow> TaskConfigurations \<Rightarrow> bool option \<times> TaskConfigurations" where
  "watchConfigurationFile_call ev rootUri s =
     (let configFile = getConfigFileUri rootUri
      in if watchedConfigFileUri s \<noteq> Some configFile then
           (None, s\<lparr>watchedConfigFileUri := Some configFile\<rparr>)
         else
           (case watchConfigurationFile_exists ev rootUri s of (b, s1) \<Rightarrow> (Some b, s1)))"

text \<open>
  The rest of a call that waits for its registration, run when the watch service has
  answered, in the state of that moment. A rejection is not caught: the call raises, with
  the path already assigned and nothing else done. Otherwise the
  \<^verbatim>\<open>unwatchFileChanges(watchId)\<close> is pushed, \<^verbatim>\<open>refreshTasks()\<close> is called without
  \<^verbatim>\<open>await\<close> (it reads the field \<^verbatim>\<open>watchedConfigFileUri\<close> as it is now), and the
  existence check follows.
\<close>

definition watchConfigurationFile_resume ::
  "env \<Rightarrow> string \<Rightarrow> TaskConfigurations \<Rightarrow> (exn + bool) \<times> TaskConfigurations" where
  "watchConfigurationFile_resume ev rootUri s =
     (let configFile = getConfigFileUri rootUri
      in case watchFileChanges ev configFile (watcherServer s) of
           Inl e \<Rightarrow> (Inl e, s)
         | Inr (watchId, w) \<Rightarrow>
             (case watchConfigurationFile_exists ev rootUri
                     (refreshTasks_call (s\<lparr>watcherServer := w, toDispose := toDispose s @ [watchId]\<rparr>)) of
                (b, s1) \<Rightarrow> (Inr b, s1)))"

text \<open>
  A whole call of \<^verbatim>\<open>watchConfigurationFile\<close>, with nothing running while it waits for
  the registration: \<open>Inl\<close> when it raises, \<open>Inr\<close> the boolean it returns.
\<close>

definition watchConfigurationFile ::
  "env \<Rightarrow> string \<Rightarrow> TaskConfigurations \<Rightarrow> (exn + bool) \<times> TaskConfigurations" where
  "watchConfigurationFile ev rootUri s =
     (case watchConfigurationFile_call ev rootUri s of
        (Some b, s1) \<Rightarrow> (Inr b, s1)
      | (None, s1) \<Rightarrow> watchConfigurationFile_resume ev rootUri s1)"

definition onDidTaskFileChange :: "FileChange \<Rightarrow> TaskConfigurations \<Rightarrow> TaskConfigurations" where
  "onDidTaskFileChange fileChange s =
     (if change_type fileChange = DELETED then s\<lparr>tasksMap := []\<rparr>
      else refreshTasks_call s)"

text \<open>
  The handler given to the watch service in the constructor; \<open>changes\<close> is
  \<^verbatim>\<open>event.changes\<close>. An exception of the client's callback is caught and logged.
\<close>

definition onDidFilesChanged :: "FileChange list \<Rightarrow> TaskConfigurations \<Rightarrow> TaskConfigurations" where
  "onDidFilesChanged changes s =
     (case find (\<lambda>change. Some (change_uri change) = watchedConfigFileUri s) changes of
        None \<Rightarrow> s
      | Some watchedConfigFileChange \<Rightarrow>
          (let s1 = onDidTaskFileChange watchedConfigFileChange s
           in case client s1 of
                None \<Rightarrow> s1
              | Some c \<Rightarrow>
                  (let s2 = s1\<lparr>notified := notified s1 @ [getTaskLabels s1]\<rparr>
                   in case c (getTaskLabels s1) of
                        None \<Rightarrow> s2
                      | Some err \<Rightarrow> s2\<lparr>logger := logger s2 @ [Error_thrown err]\<rparr>)))"

section \<open>Specification-side definitions\<close>

text \<open>
  The declared shape of a task, \<^verbatim>\<open>TaskOptions\<close>: an object whose \<^verbatim>\<open>label\<close> is a
  string.
\<close>

fun is_TaskOptions :: "jsval \<Rightarrow> bool" where
  "is_TaskOptions (JObj kvs) = (case map_of kvs ''label'' of Some (JStr l) \<Rightarrow> True | _ \<Rightarrow> False)"
| "is_TaskOptions _ = False"

text \<open>
  Duplicate filtering as the specification words it: position \<open>i\<close> survives when its
  label did not occur at an earlier position, and is dropped (with one logged error naming
  the label) when it did.
\<close>

definition occurs_earlier :: "jsval list \<Rightarrow> nat \<Rightarrow> bool" where
  "occurs_earlier ts i =
     (get_prop (ts ! i) ''label'' \<in> set (map (\<lambda>t. get_prop t ''label'') (take i ts)))"

definition first_occurrences :: "jsval list \<Rightarrow> jsval list" where
  "first_occurrences ts = map (nth ts) (filter (\<lambda>i. \<not> occurs_earlier ts i) [0..<length ts])"

definition later_occurrences :: "jsval list \<Rightarrow> jsval list" where
  "later_occurrences ts = map (nth ts) (filter (occurs_earlier ts) [0..<length ts])"

definition duplicate_errors :: "jsval list \<Rightarrow> log_entry list" where
  "duplicate_errors ts =
     map (\<lambda>t. Error_duplicate TASKFILE (case get_prop t ''label'' of Inr l \<Rightarrow> l | Inl e \<Rightarrow> JUndefined))
       (later_occurrences ts)"

text \<open>
  A refresh attempt fails when the file does not exist, when reading it throws, or when
  the parser collects at least one syntax error; \<open>syntax_errors\<close> are the errors collected.
\<close>

definition syntax_errors :: "env \<Rightarrow> string \<Rightarrow> ParseError list" where
  "syntax_errors ev u =
     (case fs_resolveContent ev u of
        None \<Rightarrow> []
      | Some content \<Rightarrow> fst (parse ev (stripComments ev content)))"

definition refresh_fails :: "env \<Rightarrow> string \<Rightarrow> bool" where
  "refresh_fails ev u =
     (\<not> fs_exists ev u \<or> fs_resolveContent ev u = None \<or> syntax_errors ev u \<noteq> [])"

text \<open>
  The value under the top-level key \<^verbatim>\<open>"tasks"\<close> of a document, when it has one, and
  the values that \<^verbatim>\<open>for ... of\<close> cannot run through.
\<close>

fun tasks_value :: "jsval \<Rightarrow> jsval option" where
  "tasks_value (JObj kvs) = map_of kvs ''tasks''"
| "tasks_value _ = None"

fun not_iterable :: "jsval \<Rightarrow> bool" where
  "not_iterable (JArr xs) = False"
| "not_iterable (JStr s) = False"
| "not_iterable _ = True"

definition tasks_absent_or_not_iterable :: "jsval \<Rightarrow> bool" where
  "tasks_absent_or_not_iterable doc =
     (case tasks_value doc of None \<Rightarrow> True | Some v \<Rightarrow> not_iterable v)"

text \<open>The invariant of the task map: every key is the label of the task stored under it.\<close>

definition keys_are_labels :: "(jsval \<times> jsval) list \<Rightarrow> bool" where
  "keys_are_labels m = list_all (\<lambda>(k, t). get_prop t ''label'' = Inr k) m"

text \<open>
  The operations on an instance: the public methods, a batch of changes delivered by the
  watch service, and a pending refresh job running to its end.
  \<^verbatim>\<open>watchConfigurationFile\<close> is there as a whole call and in its two parts, for calls
  that overlap.
\<close>

datatype operation =
    SetClient "jsval list \<Rightarrow> exn option"
  | Dispose
  | WatchConfigurationFile env string
  | WatchConfigurationFile_call env string
  | WatchConfigurationFile_resume env string
  | DidFilesChanged "FileChange list"
  | Resume env nat

fun step :: "operation \<Rightarrow> TaskConfigurations \<Rightarrow> TaskConfigurations" where
  "step (SetClient c) s = setClient c s"
| "step Dispose s = dispose s"
| "step (WatchConfigurationFile ev rootUri) s = snd (watchConfigurationFile ev rootUri s)"
| "step (WatchConfigurationFile_call ev rootUri) s = snd (watchConfigurationFile_call ev rootUri s)"
| "step (WatchConfigurationFile_resume ev rootUri) s = snd (watchConfigurationFile_resume ev rootUri s)"
| "step (DidFilesChanged changes) s = onDidFilesChanged changes s"
| "step (Resume ev i) s = resume ev i s"

section \<open>Concrete inputs\<close>

text \<open>
  A root \<^verbatim>\<open>r\<close>, its configuration file, the tasks \<^verbatim>\<open>{label:"a"}\<close> and
  \<^verbatim>\<open>{label:"b"}\<close>, and file services for: no file at all; a file whose content parses to
  \<^verbatim>\<open>{"tasks":[{"label":"a"}]}\<close>; a file with one syntax error; a file whose content
  parses to \<^verbatim>\<open>{"tasks":"x"}\<close>; one whose content parses to \<^verbatim>\<open>{"tasks":5}\<close>. Their
  watch service accepts every registration.
\<close>

definition task_a :: jsval where
  "task_a = JObj [(''label'', JStr ''a'')]"

definition task_b :: jsval where
  "task_b = JObj [(''label'', JStr ''b'')]"

definition cfg_r :: string where
  "cfg_r = getConfigFileUri ''r''"

definition no_watches :: FileSystemWatcherServer where
  "no_watches = \<lparr>watches = [], watcherSequence = 0\<rparr>"

definition env_missing :: env where
  "env_missing =
     \<lparr>fs_exists = (\<lambda>u. False), fs_resolveContent = (\<lambda>u. None),
      stripComments = (\<lambda>c. c), parse = (\<lambda>c. ([], JUndefined)),
      watch_rejects = (\<lambda>u. False)\<rparr>"

text \<open>No file at all, and a watch service that rejects every registration.\<close>

definition env_watch_rejected :: env where
  "env_watch_rejected = env_missing\<lparr>watch_rejects := (\<lambda>u. True)\<rparr>"

definition env_one_task :: env where
  "env_one_task =
     \<lparr>fs_exists = (\<lambda>u. True), fs_resolveContent = (\<lambda>u. Some ''tasks: a''),
      stripComments = (\<lambda>c. c), parse = (\<lambda>c. ([], JObj [(''tasks'', JArr [task_a])])),
      watch_rejects = (\<lambda>u. False)\<rparr>"

definition env_syntax_error :: env where
  "env_syntax_error =
     \<lparr>fs_exists = (\<lambda>u. True), fs_resolveContent = (\<lambda>u. Some ''{''),
      stripComments = (\<lambda>c. c),
      parse = (\<lambda>c. ([\<lparr>pe_error = 7, pe_offset = 1, pe_length = 0\<rparr>], JObj [])),
      watch_rejects = (\<lambda>u. False)\<rparr>"

definition env_tasks_string :: env where
  "env_tasks_string =
     \<lparr>fs_exists = (\<lambda>u. True), fs_resolveContent = (\<lambda>u. Some ''tasks: x''),
      stripComments = (\<lambda>c. c), parse = (\<lambda>c. ([], JObj [(''tasks'', JStr ''x'')])),
      watch_rejects = (\<lambda>u. False)\<rparr>"

definition env_tasks_number :: env where
  "env_tasks_number =
     \<lparr>fs_exists = (\<lambda>u. True), fs_resolveContent = (\<lambda>u. Some ''tasks: 5''),
      stripComments = (\<lambda>c. c), parse = (\<lambda>c. ([], JObj [(''tasks'', JNum 5)])),
      watch_rejects = (\<lambda>u. False)\<rparr>"

text \<open>
  A client that never throws. The instance \<open>watching_r\<close> is what the constructor,
  \<^verbatim>\<open>setClient\<close> and \<^verbatim>\<open>watchConfigurationFile('r')\<close> leave when the root has no
  configuration file; \<open>watching_r_with_a\<close> is what follows once the file has appeared with
  task \<^verbatim>\<open>a\<close> and the refresh started by the change event has finished.
\<close>

definition quiet_client :: "jsval list \<Rightarrow> exn option" where
  "quiet_client labels = None"

definition watching_r :: TaskConfigurations where
  "watching_r =
     \<lparr>tasksMap = [], watchedConfigFileUri = Some cfg_r, client = Some quiet_client,
      toDispose = [0], watcherServer = \<lparr>watches = [(0, cfg_r)], watcherSequence = 1\<rparr>,
      logger = [Warn_missing ''tasks.json'' ''r''], notified = [], pending = [], unhandled = []\<rparr>"

definition watching_r_with_a :: TaskConfigurations where
  "watching_r_with_a = watching_r\<lparr>tasksMap := [(JStr ''a'', task_a)], notified := [[]]\<rparr>"

definition created_r :: FileChange where
  "created_r = \<lparr>change_uri = cfg_r, change_type = ADDED\<rparr>"

definition updated_r :: FileChange where
  "updated_r = \<lparr>change_uri = cfg_r, change_type = UPDATED\<rparr>"

definition deleted_r :: FileChange where
  "deleted_r = \<lparr>change_uri = cfg_r, change_type = DELETED\<rparr>"

definition deleted_other :: FileChange where
  "deleted_other = \<lparr>change_uri = ''other'', change_type = DELETED\<rparr>"

section \<open>The concrete instances are reachable\<close>

lemma cfg_r_other: "cfg_r \<noteq> ''other''" "getConfigFileUri ''q'' \<noteq> cfg_r"
  by (simp_all add: cfg_r_def getConfigFileUri_def URI_resolve_def)

lemma env_missing_simps:
  "fs_exists env_missing u = False"
  "watch_rejects env_missing u = False"
  by (simp_all add: env_missing_def)

lemma env_watch_rejected_simps:
  "fs_exists env_watch_rejected u = False"
  "watch_rejects env_watch_rejected u = True"
  by (simp_all add: env_watch_rejected_def env_missing_def)

lemma env_one_task_simps:
  "fs_exists env_one_task u = True"
  "fs_resolveContent env_one_task u = Some ''tasks: a''"
  "parse env_one_task (stripComments env_one_task c) = ([], JObj [(''tasks'', JArr [task_a])])"
  by (simp_all add: env_one_task_def)

lemma readTasks_env_missing: "readTasks env_missing u lg = (None, lg)"
  by (simp add: readTasks_def env_missing_simps)

lemma readTasks_env_one_task: "readTasks env_one_task u lg = (Some [task_a], lg)"
  by (simp add: readTasks_def env_one_task_simps filterDuplicates_def)

lemma task_a_label: "get_prop task_a ''label'' = Inr (JStr ''a'')"
  by (simp add: task_a_def)

lemma watching_r_reachable:
  "fold step [SetClient quiet_client, WatchConfigurationFile env_missing ''r'', Resume env_missing 0]
     (new_TaskConfigurations no_watches) = watching_r"
proof -
  have a: "setClient quiet_client (new_TaskConfigurations no_watches) =
           (new_TaskConfigurations no_watches)\<lparr>client := Some quiet_client\<rparr>"
    by (simp add: setClient_def)
  have b: "snd (watchConfigurationFile env_missing ''r''
                 ((new_TaskConfigurations no_watches)\<lparr>client := Some quiet_client\<rparr>)) =
           watching_r\<lparr>pending := [cfg_r]\<rparr>"
    by (simp add: watchConfigurationFile_def watchConfigurationFile_call_def
          watchConfigurationFile_resume_def watchConfigurationFile_exists_def Let_def
          env_missing_simps watchFileChanges_def refreshTasks_call_def
          new_TaskConfigurations_def no_watches_def watching_r_def cfg_r_def TASKFILE_def)
  have c: "resume env_missing 0 (watching_r\<lparr>pending := [cfg_r]\<rparr>) = watching_r"
    by (simp add: resume_def refreshTasks_resume_def readTasks_env_missing watching_r_def)
  show ?thesis
    by (simp add: a b c)
qed

lemma created_r_handled:
  "onDidFilesChanged [created_r] watching_r = watching_r\<lparr>pending := [cfg_r], notified := [[]]\<rparr>"
  by (simp add: onDidFilesChanged_def onDidTaskFileChange_def refreshTasks_call_def
        getTaskLabels_def watching_r_def created_r_def quiet_client_def)

lemma created_r_resumed:
  "resume env_one_task 0 (watching_r\<lparr>pending := [cfg_r], notified := [[]]\<rparr>) = watching_r_with_a"
  by (simp add: resume_def refreshTasks_resume_def readTasks_env_one_task task_a_label
        watching_r_with_a_def watching_r_def)

lemma watching_r_with_a_reachable:
  "fold step [DidFilesChanged [created_r], Resume env_one_task 0] watching_r = watching_r_with_a"
  by (simp add: created_r_handled created_r_resumed)

lemma watching_r_with_a_simps:
  "tasksMap watching_r_with_a = [(JStr ''a'', task_a)]"
  "watchedConfigFileUri watching_r_with_a = Some cfg_r"
  "client watching_r_with_a = Some quiet_client"
  "logger watching_r_with_a = [Warn_missing ''tasks.json'' ''r'']"
  "notified watching_r_with_a = [[]]"
  "pending watching_r_with_a = []"
  "unhandled watching_r_with_a = []"
  by (simp_all add: watching_r_with_a_def watching_r_def)

lemma watching_r_with_a_labels:
  "getTaskLabels watching_r_with_a = [JStr ''a'']"
  "getTask ''a'' watching_r_with_a = Some task_a"
  by (simp_all add: getTaskLabels_def getTask_def Map_has_def watching_r_with_a_simps)

section \<open>Duplicate filtering\<close>

lemma loop_append:
  "filterDuplicates_loop (xs @ ys) acc lg =
     (case filterDuplicates_loop xs acc lg of
        (Inl e, lg') \<Rightarrow> (Inl e, lg')
      | (Inr acc', lg') \<Rightarrow> filterDuplicates_loop ys acc' lg')"
  by (induction xs acc lg rule: filterDuplicates_loop.induct)
     (auto split: sum.splits bool.splits)

lemma occurs_earlier_snoc_old:
  "i < length xs \<Longrightarrow> occurs_earlier (xs @ [x]) i = occurs_earlier xs i"
  by (simp add: occurs_earlier_def nth_append)

lemma occurs_earlier_snoc_new:
  "occurs_earlier (xs @ [x]) (length xs) =
     (get_prop x ''label'' \<in> (\<lambda>t. get_prop t ''label'') ` set xs)"
  by (simp add: occurs_earlier_def)

lemma first_occurrences_snoc:
  "first_occurrences (xs @ [x]) =
     first_occurrences xs @
       (if get_prop x ''label'' \<in> (\<lambda>t. get_prop t ''label'') ` set xs then [] else [x])"
proof -
  have f: "filter (\<lambda>i. \<not> occurs_earlier (xs @ [x]) i) [0..<length xs] =
           filter (\<lambda>i. \<not> occurs_earlier xs i) [0..<length xs]"
    by (rule filter_cong) (simp_all add: occurs_earlier_snoc_old)
  have m: "map (nth (xs @ [x])) (filter (\<lambda>i. \<not> occurs_earlier xs i) [0..<length xs]) =
           map (nth xs) (filter (\<lambda>i. \<not> occurs_earlier xs i) [0..<length xs])"
    by (rule map_cong) (simp_all add: nth_append)
  show ?thesis
    by (simp add: first_occurrences_def f m occurs_earlier_snoc_new)
qed

lemma later_occurrences_snoc:
  "later_occurrences (xs @ [x]) =
     later_occurrences xs @
       (if get_prop x ''label'' \<in> (\<lambda>t. get_prop t ''label'') ` set xs then [x] else [])"
proof -
  have f: "filter (occurs_earlier (xs @ [x])) [0..<length xs] =
           filter (occurs_earlier xs) [0..<length xs]"
    by (rule filter_cong) (simp_all add: occurs_earlier_snoc_old)
  have m: "map (nth (xs @ [x])) (filter (occurs_earlier xs) [0..<length xs]) =
           map (nth xs) (filter (occurs_earlier xs) [0..<length xs])"
    by (rule map_cong) (simp_all add: nth_append)
  show ?thesis
    by (simp add: later_occurrences_def f m occurs_earlier_snoc_new)
qed

lemma first_occurrences_labels:
  "(\<lambda>t. get_prop t ''label'') ` set (first_occurrences xs) = (\<lambda>t. get_prop t ''label'') ` set xs"
proof (induction xs rule: rev_induct)
  case Nil
  then show ?case by (simp add: first_occurrences_def)
next
  case (snoc x xs)
  then show ?case by (auto simp: first_occurrences_snoc)
qed

lemma first_occurrences_subset: "set (first_occurrences xs) \<subseteq> set xs"
  by (auto simp: first_occurrences_def)

lemma is_TaskOptions_label:
  "is_TaskOptions t \<Longrightarrow> \<exists>l. get_prop t ''label'' = Inr (JStr l)"
  by (cases t) (auto split: option.splits jsval.splits)

lemma some_label_TaskOptions:
  "list_all is_TaskOptions fs \<Longrightarrow> is_TaskOptions task \<Longrightarrow>
   some_label fs task = Inr (get_prop task ''label'' \<in> (\<lambda>t. get_prop t ''label'') ` set fs)"
proof (induction fs)
  case Nil
  then show ?case by simp
next
  case (Cons t fs)
  from Cons.prems obtain a where a: "get_prop t ''label'' = Inr (JStr a)"
    using is_TaskOptions_label by auto
  from Cons.prems obtain b where b: "get_prop task ''label'' = Inr (JStr b)"
    using is_TaskOptions_label by auto
  from Cons show ?case by (auto simp: a b)
qed

text \<open>
  C3. For every sequence of tasks (objects with a string label), duplicate filtering
  returns exactly the tasks whose label did not occur at an earlier position, in their
  original order, and logs one error naming the label for each later occurrence it drops;
  nothing else is logged and nothing is thrown.
\<close>

theorem filterDuplicates_first_wins:
  assumes "list_all is_TaskOptions ts"
  shows "filterDuplicates (JArr ts) lg = (Inr (first_occurrences ts), lg @ duplicate_errors ts)"
proof -
  have "filterDuplicates_loop ts [] lg = (Inr (first_occurrences ts), lg @ duplicate_errors ts)"
    using assms
  proof (induction ts rule: rev_induct)
    case Nil
    then show ?case
      by (simp add: first_occurrences_def duplicate_errors_def later_occurrences_def)
  next
    case (snoc x xs)
    then have xs: "list_all is_TaskOptions xs" and x: "is_TaskOptions x"
      by simp_all
    have fo: "list_all is_TaskOptions (first_occurrences xs)"
      using xs first_occurrences_subset [of xs] by (auto simp: list_all_iff)
    obtain b where b: "get_prop x ''label'' = Inr (JStr b)"
      using x is_TaskOptions_label by auto
    have sl: "some_label (first_occurrences xs) x =
              Inr (get_prop x ''label'' \<in> (\<lambda>t. get_prop t ''label'') ` set xs)"
      using some_label_TaskOptions [OF fo x] by (simp add: first_occurrences_labels)
    show ?case
      by (simp add: loop_append snoc.IH [OF xs] sl first_occurrences_snoc
          later_occurrences_snoc duplicate_errors_def b)
  qed
  then show ?thesis
    by (simp add: filterDuplicates_def)
qed

text \<open>
  The input \<^verbatim>\<open>[{label:"a"},{label:"b"},{label:"a"}]\<close> yields
  \<^verbatim>\<open>[{label:"a"},{label:"b"}]\<close> and exactly one logged error.
\<close>

theorem filterDuplicates_first_wins_witness:
  "list_all is_TaskOptions [task_a, task_b, task_a]
   \<and> filterDuplicates (JArr [task_a, task_b, task_a]) [] =
       (Inr [task_a, task_b], [Error_duplicate ''tasks.json'' (JStr ''a'')])"
proof -
  have h: "list_all is_TaskOptions [task_a, task_b, task_a]"
    by (simp add: task_a_def task_b_def)
  have f: "first_occurrences [task_a, task_b, task_a] = [task_a, task_b]"
    unfolding task_a_def task_b_def by code_simp
  have d: "duplicate_errors [task_a, task_b, task_a] = [Error_duplicate ''tasks.json'' (JStr ''a'')]"
    unfolding task_a_def task_b_def by code_simp
  show ?thesis
    using h filterDuplicates_first_wins [OF h, of "[]"] by (simp add: f d)
qed

section \<open>Failed refreshes\<close>

lemma readTasks_fails:
  "refresh_fails ev u \<Longrightarrow> fst (readTasks ev u lg) = None"
  by (auto simp: refresh_fails_def syntax_errors_def readTasks_def Let_def
           split: option.splits prod.splits)

lemma readTasks_syntax_errors:
  "fs_exists ev u \<Longrightarrow> syntax_errors ev u \<noteq> [] \<Longrightarrow>
   readTasks ev u lg =
     (None, lg @ map (\<lambda>e. Error_parsing u (pe_error e) (pe_length e) (pe_offset e)) (syntax_errors ev u))"
  by (auto simp: syntax_errors_def readTasks_def Let_def split: option.splits prod.splits)

lemma refreshTasks_resume_None:
  "fst (readTasks ev u (logger s)) = None \<Longrightarrow>
   refreshTasks_resume ev u s = s\<lparr>logger := snd (readTasks ev u (logger s))\<rparr>"
  by (cases "readTasks ev u (logger s)") (simp add: refreshTasks_resume_def)

text \<open>
  C1. A refresh that fails (the file does not exist, reading it throws, or the parser
  collects a syntax error) leaves the task map as it was: \<open>getTaskLabels\<close> and
  \<open>getTask l\<close> for every \<open>l\<close> answer as before. Starting a refresh does not touch
  the map either. On syntax errors, one line is logged for each error, carrying its code,
  length and offset.
\<close>

theorem failed_refresh_keeps_tasksMap:
  assumes "refresh_fails ev u"
  shows "tasksMap (refreshTasks_resume ev u s) = tasksMap s
       \<and> getTaskLabels (refreshTasks_resume ev u s) = getTaskLabels s
       \<and> (\<forall>l. getTask l (refreshTasks_resume ev u s) = getTask l s)
       \<and> tasksMap (refreshTasks_call s) = tasksMap s
       \<and> (fs_exists ev u \<and> syntax_errors ev u \<noteq> [] \<longrightarrow>
            logger (refreshTasks_resume ev u s) =
              logger s @ map (\<lambda>e. Error_parsing u (pe_error e) (pe_length e) (pe_offset e))
                           (syntax_errors ev u))"
proof -
  have r: "refreshTasks_resume ev u s = s\<lparr>logger := snd (readTasks ev u (logger s))\<rparr>"
    using assms by (simp add: refreshTasks_resume_None readTasks_fails)
  have c: "tasksMap (refreshTasks_call s) = tasksMap s"
    by (simp add: refreshTasks_call_def split: option.splits)
  show ?thesis
    by (simp add: r c getTaskLabels_def getTask_def readTasks_syntax_errors)
qed

text \<open>
  With task \<^verbatim>\<open>a\<close> in the map, a refresh against a file with one syntax error keeps
  the task and logs the error.
\<close>

theorem failed_refresh_keeps_tasksMap_witness:
  "refresh_fails env_syntax_error cfg_r
   \<and> getTaskLabels (refreshTasks_resume env_syntax_error cfg_r watching_r_with_a) = [JStr ''a'']
   \<and> getTask ''a'' (refreshTasks_resume env_syntax_error cfg_r watching_r_with_a) = Some task_a
   \<and> logger (refreshTasks_resume env_syntax_error cfg_r watching_r_with_a) =
       [Warn_missing ''tasks.json'' ''r'', Error_parsing cfg_r 7 0 1]"
proof -
  have se: "syntax_errors env_syntax_error cfg_r = [\<lparr>pe_error = 7, pe_offset = 1, pe_length = 0\<rparr>]"
    by (simp add: syntax_errors_def env_syntax_error_def)
  have e: "fs_exists env_syntax_error cfg_r"
    by (simp add: env_syntax_error_def)
  have h: "refresh_fails env_syntax_error cfg_r"
    by (simp add: refresh_fails_def se)
  show ?thesis
    using failed_refresh_keeps_tasksMap [OF h, of watching_r_with_a] e
    by (simp add: h se watching_r_with_a_labels watching_r_with_a_simps)
qed

section \<open>Watching a configuration file\<close>

lemma watch_exists:
  "watchConfigurationFile_exists ev rootUri s =
     (fs_exists ev (getConfigFileUri rootUri),
      s\<lparr>logger := logger s @
          (if fs_exists ev (getConfigFileUri rootUri) then [] else [Warn_missing TASKFILE rootUri])\<rparr>)"
  by (simp add: watchConfigurationFile_exists_def)

lemma watch_call_switch:
  assumes "watchedConfigFileUri s \<noteq> Some (getConfigFileUri rootUri)"
  shows "watchConfigurationFile_call ev rootUri s =
           (None, s\<lparr>watchedConfigFileUri := Some (getConfigFileUri rootUri)\<rparr>)"
  using assms by (simp add: watchConfigurationFile_call_def Let_def)

lemma watch_call_same:
  assumes "watchedConfigFileUri s = Some (getConfigFileUri rootUri)"
  shows "watchConfigurationFile_call ev rootUri s =
           (Some (fs_exists ev (getConfigFileUri rootUri)),
            s\<lparr>logger := logger s @
              (if fs_exists ev (getConfigFileUri rootUri) then [] else [Warn_missing TASKFILE rootUri])\<rparr>)"
  using assms by (simp add: watchConfigurationFile_call_def Let_def watch_exists)

lemma watch_resume_rejected:
  assumes "watch_rejects ev (getConfigFileUri rootUri)"
  shows "watchConfigurationFile_resume ev rootUri s = (Inl WatchError, s)"
  using assms by (simp add: watchConfigurationFile_resume_def Let_def watchFileChanges_def)

lemma watch_resume_registered:
  assumes "\<not> watch_rejects ev (getConfigFileUri rootUri)"
    and "watchedConfigFileUri s = Some u"
  shows "watchConfigurationFile_resume ev rootUri s =
           (Inr (fs_exists ev (getConfigFileUri rootUri)),
            s\<lparr>watcherServer :=
                 \<lparr>watches = watches (watcherServer s) @
                              [(watcherSequence (watcherServer s), getConfigFileUri rootUri)],
                  watcherSequence = Suc (watcherSequence (watcherServer s))\<rparr>,
              toDispose := toDispose s @ [watcherSequence (watcherServer s)],
              pending := pending s @ [u],
              logger := logger s @
                (if fs_exists ev (getConfigFileUri rootUri) then [] else [Warn_missing TASKFILE rootUri])\<rparr>)"
  using assms
  by (simp add: watchConfigurationFile_resume_def Let_def watchFileChanges_def
        refreshTasks_call_def watch_exists)

lemma watch_resume_result:
  assumes "\<not> watch_rejects ev (getConfigFileUri rootUri)"
  shows "fst (watchConfigurationFile_resume ev rootUri s) = Inr (fs_exists ev (getConfigFileUri rootUri))"
    and "tasksMap (snd (watchConfigurationFile_resume ev rootUri s)) = tasksMap s"
    and "unhandled (snd (watchConfigurationFile_resume ev rootUri s)) = unhandled s"
    and "logger (snd (watchConfigurationFile_resume ev rootUri s)) =
           logger s @ (if fs_exists ev (getConfigFileUri rootUri) then [] else [Warn_missing TASKFILE rootUri])"
  using assms
  by (simp_all add: watchConfigurationFile_resume_def Let_def watchFileChanges_def
        refreshTasks_call_def watch_exists split: option.splits)

lemma watch_switch:
  assumes "watchedConfigFileUri s \<noteq> Some (getConfigFileUri rootUri)"
    and "\<not> watch_rejects ev (getConfigFileUri rootUri)"
  shows "snd (watchConfigurationFile ev rootUri s) =
     s\<lparr>watchedConfigFileUri := Some (getConfigFileUri rootUri),
        watcherServer :=
          \<lparr>watches = watches (watcherServer s) @
                       [(watcherSequence (watcherServer s), getConfigFileUri rootUri)],
           watcherSequence = Suc (watcherSequence (watcherServer s))\<rparr>,
        toDispose := toDispose s @ [watcherSequence (watcherServer s)],
        pending := pending s @ [getConfigFileUri rootUri],
        logger := logger s @
          (if fs_exists ev (getConfigFileUri rootUri) then [] else [Warn_missing TASKFILE rootUri])\<rparr>"
proof -
  have u: "watchedConfigFileUri (s\<lparr>watchedConfigFileUri := Some (getConfigFileUri rootUri)\<rparr>) =
           Some (getConfigFileUri rootUri)"
    by simp
  show ?thesis
    by (simp add: watchConfigurationFile_def watch_call_switch [OF assms(1)]
          watch_resume_registered [OF assms(2) u])
qed

lemma watch_rejected:
  assumes "watchedConfigFileUri s \<noteq> Some (getConfigFileUri rootUri)"
    and "watch_rejects ev (getConfigFileUri rootUri)"
  shows "watchConfigurationFile ev rootUri s =
           (Inl WatchError, s\<lparr>watchedConfigFileUri := Some (getConfigFileUri rootUri)\<rparr>)"
  by (simp add: watchConfigurationFile_def watch_call_switch [OF assms(1)]
        watch_resume_rejected [OF assms(2)])

lemma watch_same:
  assumes "watchedConfigFileUri s = Some (getConfigFileUri rootUri)"
  shows "snd (watchConfigurationFile ev rootUri s) =
     s\<lparr>logger := logger s @
          (if fs_exists ev (getConfigFileUri rootUri) then [] else [Warn_missing TASKFILE rootUri])\<rparr>"
  by (simp add: watchConfigurationFile_def watch_call_same [OF assms])

lemma watch_switch_server:
  assumes "watchedConfigFileUri s \<noteq> Some (getConfigFileUri rootUri)"
    and "\<not> watch_rejects ev (getConfigFileUri rootUri)"
  shows "watcherServer (snd (watchConfigurationFile ev rootUri s)) =
     \<lparr>watches = watches (watcherServer s) @ [(watcherSequence (watcherServer s), getConfigFileUri rootUri)],
      watcherSequence = Suc (watcherSequence (watcherServer s))\<rparr>"
  by (simp add: watch_switch [OF assms])

lemma watch_sets_uri:
  "watchedConfigFileUri (snd (watchConfigurationFile ev rootUri s)) = Some (getConfigFileUri rootUri)"
proof (cases "watchedConfigFileUri s = Some (getConfigFileUri rootUri)")
  case True
  then show ?thesis by (simp add: watch_same)
next
  case False
  then show ?thesis
    by (cases "watch_rejects ev (getConfigFileUri rootUri)")
       (simp_all add: watch_switch watch_rejected)
qed

lemma watch_returns_exists:
  assumes "watchedConfigFileUri s = Some (getConfigFileUri rootUri)
         \<or> \<not> watch_rejects ev (getConfigFileUri rootUri)"
  shows "fst (watchConfigurationFile ev rootUri s) = Inr (fs_exists ev (getConfigFileUri rootUri))"
proof (cases "watchedConfigFileUri s = Some (getConfigFileUri rootUri)")
  case True
  then show ?thesis
    by (simp add: watchConfigurationFile_def watch_call_same)
next
  case False
  with assms have ok: "\<not> watch_rejects ev (getConfigFileUri rootUri)"
    by simp
  show ?thesis
    by (simp add: watchConfigurationFile_def watch_call_switch [OF False] watch_resume_result(1) [OF ok])
qed

lemma resume_all_single_missing:
  "\<not> fs_exists ev u \<Longrightarrow> pending s = [u] \<Longrightarrow> resume_all ev s = s\<lparr>pending := []\<rparr>"
  by (simp add: resume_all_def refreshTasks_resume_def readTasks_def)

text \<open>
  Two calls that overlap: the call for \<^verbatim>\<open>r\<close> waits for its registration when the call
  for \<^verbatim>\<open>q\<close> assigns the watched path. Both registrations are made, and both refreshes
  are started for the file of \<^verbatim>\<open>q\<close>, none for the file of \<^verbatim>\<open>r\<close>.
\<close>

lemma overlapping_calls_refresh_last_root:
  "pending (fold step
      [WatchConfigurationFile_call env_missing ''r'', WatchConfigurationFile_call env_missing ''q'',
       WatchConfigurationFile_resume env_missing ''r'', WatchConfigurationFile_resume env_missing ''q'']
      (new_TaskConfigurations no_watches)) = [getConfigFileUri ''q'', getConfigFileUri ''q'']"
  "watches (watcherServer (fold step
      [WatchConfigurationFile_call env_missing ''r'', WatchConfigurationFile_call env_missing ''q'',
       WatchConfigurationFile_resume env_missing ''r'', WatchConfigurationFile_resume env_missing ''q'']
      (new_TaskConfigurations no_watches))) = [(0, getConfigFileUri ''r''), (1, getConfigFileUri ''q'')]"
proof -
  have d: "getConfigFileUri ''r'' \<noteq> getConfigFileUri ''q''"
    by (simp add: getConfigFileUri_def URI_resolve_def)
  have s: "fold step
      [WatchConfigurationFile_call env_missing ''r'', WatchConfigurationFile_call env_missing ''q'',
       WatchConfigurationFile_resume env_missing ''r'', WatchConfigurationFile_resume env_missing ''q'']
      (new_TaskConfigurations no_watches) =
     (new_TaskConfigurations no_watches)
       \<lparr>watchedConfigFileUri := Some (getConfigFileUri ''q''),
        watcherServer := \<lparr>watches = [(0, getConfigFileUri ''r''), (1, getConfigFileUri ''q'')],
                          watcherSequence = 2\<rparr>,
        toDispose := [0, 1],
        pending := [getConfigFileUri ''q'', getConfigFileUri ''q''],
        logger := [Warn_missing TASKFILE ''r'', Warn_missing TASKFILE ''q'']\<rparr>"
    using d
    by (simp add: watchConfigurationFile_call_def watchConfigurationFile_resume_def
          watchConfigurationFile_exists_def watchFileChanges_def refreshTasks_call_def Let_def
          env_missing_simps new_TaskConfigurations_def no_watches_def)
  show "pending (fold step
      [WatchConfigurationFile_call env_missing ''r'', WatchConfigurationFile_call env_missing ''q'',
       WatchConfigurationFile_resume env_missing ''r'', WatchConfigurationFile_resume env_missing ''q'']
      (new_TaskConfigurations no_watches)) = [getConfigFileUri ''q'', getConfigFileUri ''q'']"
    unfolding s by simp
  show "watches (watcherServer (fold step
      [WatchConfigurationFile_call env_missing ''r'', WatchConfigurationFile_call env_missing ''q'',
       WatchConfigurationFile_resume env_missing ''r'', WatchConfigurationFile_resume env_missing ''q'']
      (new_TaskConfigurations no_watches))) = [(0, getConfigFileUri ''r''), (1, getConfigFileUri ''q'')]"
    unfolding s by simp
qed

text \<open>
  C2, as the code has it. Take a call whose computed path differs from the watched path and
  whose registration is not rejected. The call assigns the path and waits for the
  registration. When the registration is answered and the watched path is still the
  computed one (no other call has changed it meanwhile), a new watch is registered for that
  path and exactly one refresh is started, for that path; so it is, in particular, for a
  call with nothing running in between. Every registration made before stays with the
  watch service: its \<^verbatim>\<open>unwatchFileChanges\<close> is only queued for \<^verbatim>\<open>dispose()\<close>. The task
  map is not touched by the call itself.
\<close>

theorem root_switch_keeps_old_watch:
  assumes "watchedConfigFileUri s \<noteq> Some (getConfigFileUri rootUri)"
    and "\<not> watch_rejects ev (getConfigFileUri rootUri)"
  shows "watches (watcherServer (snd (watchConfigurationFile ev rootUri s))) =
           watches (watcherServer s) @ [(watcherSequence (watcherServer s), getConfigFileUri rootUri)]
       \<and> watchedConfigFileUri (snd (watchConfigurationFile ev rootUri s)) = Some (getConfigFileUri rootUri)
       \<and> pending (snd (watchConfigurationFile ev rootUri s)) = pending s @ [getConfigFileUri rootUri]
       \<and> toDispose (snd (watchConfigurationFile ev rootUri s)) = toDispose s @ [watcherSequence (watcherServer s)]
       \<and> tasksMap (snd (watchConfigurationFile ev rootUri s)) = tasksMap s
       \<and> watchConfigurationFile_call ev rootUri s =
           (None, s\<lparr>watchedConfigFileUri := Some (getConfigFileUri rootUri)\<rparr>)
       \<and> (watchedConfigFileUri s' = Some (getConfigFileUri rootUri) \<longrightarrow>
            watches (watcherServer (snd (watchConfigurationFile_resume ev rootUri s'))) =
              watches (watcherServer s') @ [(watcherSequence (watcherServer s'), getConfigFileUri rootUri)]
          \<and> watchedConfigFileUri (snd (watchConfigurationFile_resume ev rootUri s')) =
              Some (getConfigFileUri rootUri)
          \<and> pending (snd (watchConfigurationFile_resume ev rootUri s')) =
              pending s' @ [getConfigFileUri rootUri]
          \<and> toDispose (snd (watchConfigurationFile_resume ev rootUri s')) =
              toDispose s' @ [watcherSequence (watcherServer s')]
          \<and> tasksMap (snd (watchConfigurationFile_resume ev rootUri s')) = tasksMap s')"
proof -
  note sw = watch_switch [OF assms, of]
  have whole: "watches (watcherServer (snd (watchConfigurationFile ev rootUri s))) =
           watches (watcherServer s) @ [(watcherSequence (watcherServer s), getConfigFileUri rootUri)]
       \<and> watchedConfigFileUri (snd (watchConfigurationFile ev rootUri s)) = Some (getConfigFileUri rootUri)
       \<and> pending (snd (watchConfigurationFile ev rootUri s)) = pending s @ [getConfigFileUri rootUri]
       \<and> toDispose (snd (watchConfigurationFile ev rootUri s)) = toDispose s @ [watcherSequence (watcherServer s)]
       \<and> tasksMap (snd (watchConfigurationFile ev rootUri s)) = tasksMap s"
    by (simp add: sw)
  have call: "watchConfigurationFile_call ev rootUri s =
           (None, s\<lparr>watchedConfigFileUri := Some (getConfigFileUri rootUri)\<rparr>)"
    using assms(1) by (rule watch_call_switch)
  have rest: "watches (watcherServer (snd (watchConfigurationFile_resume ev rootUri s'))) =
              watches (watcherServer s') @ [(watcherSequence (watcherServer s'), getConfigFileUri rootUri)]
          \<and> watchedConfigFileUri (snd (watchConfigurationFile_resume ev rootUri s')) =
              Some (getConfigFileUri rootUri)
          \<and> pending (snd (watchConfigurationFile_resume ev rootUri s')) =
              pending s' @ [getConfigFileUri rootUri]
          \<and> toDispose (snd (watchConfigurationFile_resume ev rootUri s')) =
              toDispose s' @ [watcherSequence (watcherServer s')]
          \<and> tasksMap (snd (watchConfigurationFile_resume ev rootUri s')) = tasksMap s'"
    if still: "watchedConfigFileUri s' = Some (getConfigFileUri rootUri)"
    by (simp add: watch_resume_registered [OF assms(2) still] still)
  from whole call rest show ?thesis
    by blast
qed

text \<open>Switching from root \<^verbatim>\<open>r\<close> to root \<^verbatim>\<open>q\<close>.\<close>

theorem root_switch_keeps_old_watch_witness:
  "watchedConfigFileUri watching_r \<noteq> Some (getConfigFileUri ''q'')
   \<and> \<not> watch_rejects env_missing (getConfigFileUri ''q'')
   \<and> watches (watcherServer (snd (watchConfigurationFile env_missing ''q'' watching_r))) =
       [(0, cfg_r), (1, getConfigFileUri ''q'')]
   \<and> watchedConfigFileUri (snd (watchConfigurationFile env_missing ''q'' watching_r)) =
       Some (getConfigFileUri ''q'')
   \<and> pending (snd (watchConfigurationFile env_missing ''q'' watching_r)) = [getConfigFileUri ''q'']
   \<and> watchedConfigFileUri (watching_r\<lparr>watchedConfigFileUri := Some (getConfigFileUri ''q'')\<rparr>) =
       Some (getConfigFileUri ''q'')
   \<and> pending (snd (watchConfigurationFile_resume env_missing ''q''
        (watching_r\<lparr>watchedConfigFileUri := Some (getConfigFileUri ''q'')\<rparr>))) = [getConfigFileUri ''q'']"
proof -
  have h: "watchedConfigFileUri watching_r \<noteq> Some (getConfigFileUri ''q'')"
    using cfg_r_other(2) by (auto simp: watching_r_def)
  have ok: "\<not> watch_rejects env_missing (getConfigFileUri ''q'')"
    by (simp add: env_missing_simps)
  have w: "watches (watcherServer watching_r) = [(0, cfg_r)]"
    "watcherSequence (watcherServer watching_r) = 1" "pending watching_r = []"
    by (simp_all add: watching_r_def)
  have still: "watchedConfigFileUri (watching_r\<lparr>watchedConfigFileUri := Some (getConfigFileUri ''q'')\<rparr>) =
       Some (getConfigFileUri ''q'')"
    by simp
  from root_switch_keeps_old_watch
    [OF h ok, of "watching_r\<lparr>watchedConfigFileUri := Some (getConfigFileUri ''q'')\<rparr>"] still
  have "watches (watcherServer (snd (watchConfigurationFile env_missing ''q'' watching_r))) =
           watches (watcherServer watching_r) @
             [(watcherSequence (watcherServer watching_r), getConfigFileUri ''q'')]"
    and "watchedConfigFileUri (snd (watchConfigurationFile env_missing ''q'' watching_r)) =
           Some (getConfigFileUri ''q'')"
    and "pending (snd (watchConfigurationFile env_missing ''q'' watching_r)) =
           pending watching_r @ [getConfigFileUri ''q'']"
    and "pending (snd (watchConfigurationFile_resume env_missing ''q''
            (watching_r\<lparr>watchedConfigFileUri := Some (getConfigFileUri ''q'')\<rparr>))) =
           pending (watching_r\<lparr>watchedConfigFileUri := Some (getConfigFileUri ''q'')\<rparr>) @
             [getConfigFileUri ''q'']"
    by blast+
  with h ok show ?thesis
    by (simp add: w)
qed

text \<open>
  C2 as stated fails: after \<^verbatim>\<open>watchConfigurationFile('r')\<close> and then
  \<^verbatim>\<open>watchConfigurationFile('q')\<close> on a new instance, one call after the other and both
  registrations accepted, the registration made for the file of \<^verbatim>\<open>r\<close> is still among
  the live registrations of the watch service.
\<close>

theorem root_switch_unregisters_counterexample:
  "getConfigFileUri ''r'' \<noteq> getConfigFileUri ''q''
   \<and> watches (watcherServer
        (fold step [WatchConfigurationFile env_missing ''r'', WatchConfigurationFile env_missing ''q'']
           (new_TaskConfigurations no_watches))) =
       [(0, getConfigFileUri ''r''), (1, getConfigFileUri ''q'')]"
proof -
  have d: "getConfigFileUri ''r'' \<noteq> getConfigFileUri ''q''"
    by (simp add: getConfigFileUri_def URI_resolve_def)
  have ok: "\<not> watch_rejects env_missing u" for u
    by (simp add: env_missing_simps)
  have a: "watchedConfigFileUri (new_TaskConfigurations no_watches) \<noteq> Some (getConfigFileUri ''r'')"
    by (simp add: new_TaskConfigurations_def)
  have b: "watchedConfigFileUri (snd (watchConfigurationFile env_missing ''r'' (new_TaskConfigurations no_watches)))
           \<noteq> Some (getConfigFileUri ''q'')"
    using d by (simp add: watch_sets_uri)
  have f: "fold step [WatchConfigurationFile env_missing ''r'', WatchConfigurationFile env_missing ''q'']
             (new_TaskConfigurations no_watches) =
           snd (watchConfigurationFile env_missing ''q''
             (snd (watchConfigurationFile env_missing ''r'' (new_TaskConfigurations no_watches))))"
    by simp
  have w: "watches (watcherServer (snd (watchConfigurationFile env_missing ''q''
             (snd (watchConfigurationFile env_missing ''r'' (new_TaskConfigurations no_watches)))))) =
           [(0, getConfigFileUri ''r''), (1, getConfigFileUri ''q'')]"
    by (simp add: watch_switch_server [OF b ok] watch_switch_server [OF a ok])
       (simp add: new_TaskConfigurations_def no_watches_def)
  show ?thesis
    using d unfolding f w by simp
qed

text \<open>
  C7. A second \<^verbatim>\<open>watchConfigurationFile\<close> with the same root changes nothing but the
  log (the warning, when the file does not exist): no watch is registered, no refresh is
  started, map and watched path are as after the first call.
\<close>

theorem rewatch_same_root:
  "snd (watchConfigurationFile ev' rootUri (snd (watchConfigurationFile ev rootUri s))) =
     (snd (watchConfigurationFile ev rootUri s))
       \<lparr>logger := logger (snd (watchConfigurationFile ev rootUri s)) @
          (if fs_exists ev' (getConfigFileUri rootUri) then [] else [Warn_missing TASKFILE rootUri])\<rparr>
   \<and> watcherServer (snd (watchConfigurationFile ev' rootUri (snd (watchConfigurationFile ev rootUri s)))) =
       watcherServer (snd (watchConfigurationFile ev rootUri s))
   \<and> toDispose (snd (watchConfigurationFile ev' rootUri (snd (watchConfigurationFile ev rootUri s)))) =
       toDispose (snd (watchConfigurationFile ev rootUri s))
   \<and> pending (snd (watchConfigurationFile ev' rootUri (snd (watchConfigurationFile ev rootUri s)))) =
       pending (snd (watchConfigurationFile ev rootUri s))
   \<and> tasksMap (snd (watchConfigurationFile ev' rootUri (snd (watchConfigurationFile ev rootUri s)))) =
       tasksMap (snd (watchConfigurationFile ev rootUri s))
   \<and> watchedConfigFileUri (snd (watchConfigurationFile ev' rootUri (snd (watchConfigurationFile ev rootUri s)))) =
       watchedConfigFileUri (snd (watchConfigurationFile ev rootUri s))"
proof -
  define s1 where "s1 = snd (watchConfigurationFile ev rootUri s)"
  have u: "watchedConfigFileUri s1 = Some (getConfigFileUri rootUri)"
    unfolding s1_def by (rule watch_sets_uri)
  have e: "snd (watchConfigurationFile ev' rootUri s1) =
           s1\<lparr>logger := logger s1 @
             (if fs_exists ev' (getConfigFileUri rootUri) then [] else [Warn_missing TASKFILE rootUri])\<rparr>"
    using u by (rule watch_same)
  have "snd (watchConfigurationFile ev' rootUri s1) =
           s1\<lparr>logger := logger s1 @
             (if fs_exists ev' (getConfigFileUri rootUri) then [] else [Warn_missing TASKFILE rootUri])\<rparr>
      \<and> watcherServer (snd (watchConfigurationFile ev' rootUri s1)) = watcherServer s1
      \<and> toDispose (snd (watchConfigurationFile ev' rootUri s1)) = toDispose s1
      \<and> pending (snd (watchConfigurationFile ev' rootUri s1)) = pending s1
      \<and> tasksMap (snd (watchConfigurationFile ev' rootUri s1)) = tasksMap s1
      \<and> watchedConfigFileUri (snd (watchConfigurationFile ev' rootUri s1)) = watchedConfigFileUri s1"
    by (simp add: e)
  then show ?thesis
    unfolding s1_def .
qed

text \<open>Two calls for root \<^verbatim>\<open>r\<close> on a new instance: one registration, one refresh started.\<close>

theorem rewatch_same_root_witness:
  "watches (watcherServer (snd (watchConfigurationFile env_missing ''r''
      (snd (watchConfigurationFile env_missing ''r'' (new_TaskConfigurations no_watches)))))) =
     [(0, getConfigFileUri ''r'')]
   \<and> pending (snd (watchConfigurationFile env_missing ''r''
      (snd (watchConfigurationFile env_missing ''r'' (new_TaskConfigurations no_watches))))) =
     [getConfigFileUri ''r'']"
proof -
  have a: "watchedConfigFileUri (new_TaskConfigurations no_watches) \<noteq> Some (getConfigFileUri ''r'')"
    by (simp add: new_TaskConfigurations_def)
  have ok: "\<not> watch_rejects env_missing (getConfigFileUri ''r'')"
    by (simp add: env_missing_simps)
  have w: "watches (watcherServer (snd (watchConfigurationFile env_missing ''r'' (new_TaskConfigurations no_watches)))) =
           [(0, getConfigFileUri ''r'')]"
    and p: "pending (snd (watchConfigurationFile env_missing ''r'' (new_TaskConfigurations no_watches))) =
           [getConfigFileUri ''r'']"
    unfolding watch_switch [OF a ok]
    by (simp_all add: new_TaskConfigurations_def no_watches_def)
  have "watcherServer (snd (watchConfigurationFile env_missing ''r''
          (snd (watchConfigurationFile env_missing ''r'' (new_TaskConfigurations no_watches))))) =
        watcherServer (snd (watchConfigurationFile env_missing ''r'' (new_TaskConfigurations no_watches)))"
    and "pending (snd (watchConfigurationFile env_missing ''r''
          (snd (watchConfigurationFile env_missing ''r'' (new_TaskConfigurations no_watches))))) =
        pending (snd (watchConfigurationFile env_missing ''r'' (new_TaskConfigurations no_watches)))"
    using rewatch_same_root [of env_missing "''r''" env_missing "new_TaskConfigurations no_watches"]
    by blast+
  then show ?thesis
    by (simp only: w p simp_thms)
qed

text \<open>
  C8, as the code has it. Take a call that needs no registration (the computed path is the
  watched one) or whose registration is not rejected. It does not raise: it returns
  exactly whether the file exists at the computed path, and it touches neither the map nor
  the list of unhandled rejections. When the file does not exist it returns \<^verbatim>\<open>false\<close>
  and logs the warning; with no earlier refresh pending and nothing running during the
  call, the refresh it may have started finishes without touching the map, without
  logging and without raising. Result, warning and untouched map are the same when other
  operations have run while the call waited for its registration.
\<close>

theorem watch_missing_file:
  assumes "watchedConfigFileUri s = Some (getConfigFileUri rootUri)
         \<or> \<not> watch_rejects ev (getConfigFileUri rootUri)"
  shows "fst (watchConfigurationFile ev rootUri s) = Inr (fs_exists ev (getConfigFileUri rootUri))
   \<and> tasksMap (snd (watchConfigurationFile ev rootUri s)) = tasksMap s
   \<and> unhandled (snd (watchConfigurationFile ev rootUri s)) = unhandled s
   \<and> (\<not> fs_exists ev (getConfigFileUri rootUri) \<longrightarrow>
        fst (watchConfigurationFile ev rootUri s) = Inr False
      \<and> logger (snd (watchConfigurationFile ev rootUri s)) = logger s @ [Warn_missing TASKFILE rootUri]
      \<and> (pending s = [] \<longrightarrow>
           tasksMap (resume_all ev (snd (watchConfigurationFile ev rootUri s))) = tasksMap s
         \<and> unhandled (resume_all ev (snd (watchConfigurationFile ev rootUri s))) = unhandled s
         \<and> logger (resume_all ev (snd (watchConfigurationFile ev rootUri s))) =
             logger s @ [Warn_missing TASKFILE rootUri]))
   \<and> tasksMap (snd (watchConfigurationFile_call ev rootUri s)) = tasksMap s
   \<and> (\<not> watch_rejects ev (getConfigFileUri rootUri) \<longrightarrow>
        fst (watchConfigurationFile_resume ev rootUri s') = Inr (fs_exists ev (getConfigFileUri rootUri))
      \<and> tasksMap (snd (watchConfigurationFile_resume ev rootUri s')) = tasksMap s'
      \<and> unhandled (snd (watchConfigurationFile_resume ev rootUri s')) = unhandled s'
      \<and> (\<not> fs_exists ev (getConfigFileUri rootUri) \<longrightarrow>
           logger (snd (watchConfigurationFile_resume ev rootUri s')) =
             logger s' @ [Warn_missing TASKFILE rootUri]))"
proof -
  have call: "tasksMap (snd (watchConfigurationFile_call ev rootUri s)) = tasksMap s"
    by (simp add: watchConfigurationFile_call_def Let_def watch_exists)
  have rest: "fst (watchConfigurationFile_resume ev rootUri s') = Inr (fs_exists ev (getConfigFileUri rootUri))
      \<and> tasksMap (snd (watchConfigurationFile_resume ev rootUri s')) = tasksMap s'
      \<and> unhandled (snd (watchConfigurationFile_resume ev rootUri s')) = unhandled s'
      \<and> (\<not> fs_exists ev (getConfigFileUri rootUri) \<longrightarrow>
           logger (snd (watchConfigurationFile_resume ev rootUri s')) =
             logger s' @ [Warn_missing TASKFILE rootUri])"
    if ok: "\<not> watch_rejects ev (getConfigFileUri rootUri)"
    by (simp add: watch_resume_result [OF ok])
  have whole: "fst (watchConfigurationFile ev rootUri s) = Inr (fs_exists ev (getConfigFileUri rootUri))
   \<and> tasksMap (snd (watchConfigurationFile ev rootUri s)) = tasksMap s
   \<and> unhandled (snd (watchConfigurationFile ev rootUri s)) = unhandled s
   \<and> (\<not> fs_exists ev (getConfigFileUri rootUri) \<longrightarrow>
        fst (watchConfigurationFile ev rootUri s) = Inr False
      \<and> logger (snd (watchConfigurationFile ev rootUri s)) = logger s @ [Warn_missing TASKFILE rootUri]
      \<and> (pending s = [] \<longrightarrow>
           tasksMap (resume_all ev (snd (watchConfigurationFile ev rootUri s))) = tasksMap s
         \<and> unhandled (resume_all ev (snd (watchConfigurationFile ev rootUri s))) = unhandled s
         \<and> logger (resume_all ev (snd (watchConfigurationFile ev rootUri s))) =
             logger s @ [Warn_missing TASKFILE rootUri]))"
  proof (cases "watchedConfigFileUri s = Some (getConfigFileUri rootUri)")
    case True
    show ?thesis
      by (simp add: watch_returns_exists [OF assms] watch_same [OF True] resume_all_def)
  next
    case False
    with assms have ok: "\<not> watch_rejects ev (getConfigFileUri rootUri)"
      by simp
    show ?thesis
      by (simp add: watch_returns_exists [OF assms] watch_switch [OF False ok] resume_all_single_missing)
  qed
  from whole call rest show ?thesis
    by blast
qed

text \<open>A new instance and a root without configuration file: \<^verbatim>\<open>false\<close>, one warning, an empty map.\<close>

theorem watch_missing_file_witness:
  "\<not> watch_rejects env_missing (getConfigFileUri ''r'')
   \<and> \<not> fs_exists env_missing (getConfigFileUri ''r'')
   \<and> pending (new_TaskConfigurations no_watches) = []
   \<and> fst (watchConfigurationFile env_missing ''r'' (new_TaskConfigurations no_watches)) = Inr False
   \<and> logger (snd (watchConfigurationFile env_missing ''r'' (new_TaskConfigurations no_watches))) =
       [Warn_missing ''tasks.json'' ''r'']
   \<and> tasksMap (resume_all env_missing
        (snd (watchConfigurationFile env_missing ''r'' (new_TaskConfigurations no_watches)))) = []
   \<and> fst (watchConfigurationFile_resume env_missing ''r'' watching_r_with_a) = Inr False
   \<and> tasksMap (snd (watchConfigurationFile_resume env_missing ''r'' watching_r_with_a)) =
       [(JStr ''a'', task_a)]"
proof -
  have ok: "\<not> watch_rejects env_missing (getConfigFileUri ''r'')"
    and h: "\<not> fs_exists env_missing (getConfigFileUri ''r'')"
    by (simp_all add: env_missing_simps)
  have n: "pending (new_TaskConfigurations no_watches) = []"
    "logger (new_TaskConfigurations no_watches) = []"
    "tasksMap (new_TaskConfigurations no_watches) = []"
    by (simp_all add: new_TaskConfigurations_def)
  have "watchedConfigFileUri (new_TaskConfigurations no_watches) = Some (getConfigFileUri ''r'')
      \<or> \<not> watch_rejects env_missing (getConfigFileUri ''r'')"
    using ok by simp
  from watch_missing_file [OF this, of watching_r_with_a] h ok show ?thesis
    by (simp add: n TASKFILE_def watching_r_with_a_simps)
qed

text \<open>
  C8 as stated fails: on a new instance, for a root without configuration file and a watch
  service that rejects the registration, \<^verbatim>\<open>watchConfigurationFile\<close> raises; it returns
  no boolean and logs no warning, and the path stays recorded as the watched one.
\<close>

theorem watch_rejected_raises_counterexample:
  "\<not> fs_exists env_watch_rejected (getConfigFileUri ''r'')
   \<and> watch_rejects env_watch_rejected (getConfigFileUri ''r'')
   \<and> fst (watchConfigurationFile env_watch_rejected ''r'' (new_TaskConfigurations no_watches)) = Inl WatchError
   \<and> logger (snd (watchConfigurationFile env_watch_rejected ''r'' (new_TaskConfigurations no_watches))) = []
   \<and> pending (snd (watchConfigurationFile env_watch_rejected ''r'' (new_TaskConfigurations no_watches))) = []
   \<and> watchedConfigFileUri (snd (watchConfigurationFile env_watch_rejected ''r'' (new_TaskConfigurations no_watches))) =
       Some (getConfigFileUri ''r'')"
proof -
  have a: "watchedConfigFileUri (new_TaskConfigurations no_watches) \<noteq> Some (getConfigFileUri ''r'')"
    by (simp add: new_TaskConfigurations_def)
  have r: "watch_rejects env_watch_rejected (getConfigFileUri ''r'')"
    by (simp add: env_watch_rejected_simps)
  have n: "logger (new_TaskConfigurations no_watches) = []"
    "pending (new_TaskConfigurations no_watches) = []"
    by (simp_all add: new_TaskConfigurations_def)
  show ?thesis
    unfolding watch_rejected [OF a r]
    by (simp add: env_watch_rejected_simps n)
qed

section \<open>Change events\<close>

lemma find_first_match:
  assumes "\<forall>x \<in> set pre. \<not> P x" and "P c"
  shows "find P (pre @ c # post) = Some c"
  using assms by (induction pre) simp_all

lemma find_no_match:
  assumes "\<forall>x \<in> set xs. \<not> P x"
  shows "find P xs = None"
  using assms by (induction xs) simp_all

text \<open>
  C9. Of a batch of changes, only the first change whose uri is the watched path is
  handled: the batch has the effect of that change alone, the changes after it are
  ignored, whatever they are; the changes before it, which do not concern the watched
  file, have no effect of their own.
\<close>

theorem first_matching_change_only:
  assumes "\<forall>x \<in> set pre. Some (change_uri x) \<noteq> watchedConfigFileUri s"
    and "Some (change_uri c) = watchedConfigFileUri s"
  shows "onDidFilesChanged (pre @ c # post) s = onDidFilesChanged [c] s
       \<and> onDidFilesChanged pre s = s"
proof
  let ?P = "\<lambda>change. Some (change_uri change) = watchedConfigFileUri s"
  have a: "find ?P (pre @ c # post) = Some c"
    using assms by (intro find_first_match) simp_all
  have b: "find ?P [c] = Some c"
    using assms by simp
  show "onDidFilesChanged (pre @ c # post) s = onDidFilesChanged [c] s"
    unfolding onDidFilesChanged_def a b ..
  have n: "find ?P pre = None"
    using assms(1) by (intro find_no_match) simp
  show "onDidFilesChanged pre s = s"
    unfolding onDidFilesChanged_def n by simp
qed

text \<open>
  A batch with a change of another file, then an update and a deletion of the watched
  file: the update is handled, the deletion is not (task \<^verbatim>\<open>a\<close> stays in the map).
\<close>

theorem first_matching_change_only_witness:
  "Some (change_uri deleted_other) \<noteq> watchedConfigFileUri watching_r_with_a
   \<and> Some (change_uri updated_r) = watchedConfigFileUri watching_r_with_a
   \<and> onDidFilesChanged ([deleted_other] @ updated_r # [deleted_r]) watching_r_with_a =
       watching_r_with_a\<lparr>pending := [cfg_r], notified := [[], [JStr ''a'']]\<rparr>
   \<and> tasksMap (onDidFilesChanged ([deleted_other] @ updated_r # [deleted_r]) watching_r_with_a) =
       [(JStr ''a'', task_a)]"
proof -
  have h1: "\<forall>x \<in> set [deleted_other]. Some (change_uri x) \<noteq> watchedConfigFileUri watching_r_with_a"
    using cfg_r_other(1) by (auto simp: watching_r_with_a_simps deleted_other_def)
  have h2: "Some (change_uri updated_r) = watchedConfigFileUri watching_r_with_a"
    by (simp add: watching_r_with_a_simps updated_r_def)
  have e: "onDidFilesChanged [updated_r] watching_r_with_a =
           watching_r_with_a\<lparr>pending := [cfg_r], notified := [[], [JStr ''a'']]\<rparr>"
    by (simp add: onDidFilesChanged_def onDidTaskFileChange_def refreshTasks_call_def
          getTaskLabels_def watching_r_with_a_def watching_r_def updated_r_def quiet_client_def)
  have m: "tasksMap (watching_r_with_a\<lparr>pending := [cfg_r], notified := [[], [JStr ''a'']]\<rparr>) =
           [(JStr ''a'', task_a)]"
    by (simp add: watching_r_with_a_simps)
  have h0: "Some (change_uri deleted_other) \<noteq> watchedConfigFileUri watching_r_with_a"
    using h1 by simp
  show ?thesis
    using h0 h2 first_matching_change_only [OF h1 h2, of "[deleted_r]", THEN conjunct1]
    by (simp only: e m simp_thms)
qed

text \<open>
  C5, as the code has it. When the first change of a batch whose uri is the watched path
  is a deletion, the map is cleared without starting a refresh (no job is added; the
  handler never asks the file service, so the outcome does not depend on the file), and a
  registered client is notified with the empty list; \<open>getTaskLabels\<close> is empty
  afterwards.
\<close>

theorem deletion_clears:
  assumes "find (\<lambda>change. Some (change_uri change) = watchedConfigFileUri s) changes = Some c"
    and "change_type c = DELETED"
  shows "tasksMap (onDidFilesChanged changes s) = []
       \<and> getTaskLabels (onDidFilesChanged changes s) = []
       \<and> pending (onDidFilesChanged changes s) = pending s
       \<and> (client s \<noteq> None \<longrightarrow> notified (onDidFilesChanged changes s) = notified s @ [[]])
       \<and> (client s = None \<longrightarrow> notified (onDidFilesChanged changes s) = notified s)"
proof (cases "client s")
  case None
  with assms show ?thesis
    by (simp add: onDidFilesChanged_def onDidTaskFileChange_def getTaskLabels_def)
next
  case (Some cl)
  with assms show ?thesis
    by (cases "cl []")
       (simp_all add: onDidFilesChanged_def onDidTaskFileChange_def getTaskLabels_def Let_def)
qed

text \<open>With task \<^verbatim>\<open>a\<close> in the map, a deletion of the watched file empties it and the client is told.\<close>

theorem deletion_clears_witness:
  "find (\<lambda>change. Some (change_uri change) = watchedConfigFileUri watching_r_with_a) [deleted_r] =
     Some deleted_r
   \<and> change_type deleted_r = DELETED
   \<and> client watching_r_with_a \<noteq> None
   \<and> getTaskLabels watching_r_with_a = [JStr ''a'']
   \<and> getTaskLabels (onDidFilesChanged [deleted_r] watching_r_with_a) = []
   \<and> notified (onDidFilesChanged [deleted_r] watching_r_with_a) = [[], []]"
proof -
  have h1: "find (\<lambda>change. Some (change_uri change) = watchedConfigFileUri watching_r_with_a) [deleted_r] =
     Some deleted_r"
    by (simp add: watching_r_with_a_simps deleted_r_def)
  have h2: "change_type deleted_r = DELETED"
    by (simp add: deleted_r_def)
  show ?thesis
    using deletion_clears [OF h1 h2] h1 h2
    by (simp add: watching_r_with_a_simps watching_r_with_a_labels)
qed

text \<open>
  C4, evaluated. The root \<^verbatim>\<open>r\<close> has no configuration file when it is first watched;
  the file then appears with task \<^verbatim>\<open>a\<close> and the watch service reports it. The
  handler starts the refresh without awaiting it and notifies the client at once, with
  the labels the map holds before the refresh: the empty list. The refresh then puts
  \<^verbatim>\<open>a\<close> in the map, and the client is not told.
\<close>

theorem change_notifies_stale_labels:
  "notified watching_r = []
   \<and> notified (fold step [DidFilesChanged [created_r]] watching_r) = [[]]
   \<and> pending (fold step [DidFilesChanged [created_r]] watching_r) = [cfg_r]
   \<and> getTaskLabels (fold step [DidFilesChanged [created_r], Resume env_one_task 0] watching_r) = [JStr ''a'']
   \<and> notified (fold step [DidFilesChanged [created_r], Resume env_one_task 0] watching_r) = [[]]"
proof -
  have n: "notified watching_r = []"
    by (simp add: watching_r_def)
  have a: "fold step [DidFilesChanged [created_r]] watching_r =
           watching_r\<lparr>pending := [cfg_r], notified := [[]]\<rparr>"
    by (simp add: created_r_handled)
  have b: "notified (watching_r\<lparr>pending := [cfg_r], notified := [[]]\<rparr>) = [[]]"
    "pending (watching_r\<lparr>pending := [cfg_r], notified := [[]]\<rparr>) = [cfg_r]"
    by simp_all
  show ?thesis
    unfolding a watching_r_with_a_reachable
    by (simp add: n b watching_r_with_a_labels watching_r_with_a_simps)
qed

text \<open>
  C5 as stated fails: a deletion of the watched file that comes after an update of the same
  file in one batch is not handled. Task \<^verbatim>\<open>a\<close> stays in the map and the client is
  notified with \<^verbatim>\<open>['a']\<close>, not with the empty list.
\<close>

theorem deletion_later_in_batch_counterexample:
  "Some (change_uri deleted_r) = watchedConfigFileUri watching_r_with_a
   \<and> change_type deleted_r = DELETED
   \<and> getTaskLabels (onDidFilesChanged [updated_r, deleted_r] watching_r_with_a) = [JStr ''a'']
   \<and> notified (onDidFilesChanged [updated_r, deleted_r] watching_r_with_a) = [[], [JStr ''a'']]"
proof -
  have e: "onDidFilesChanged [updated_r, deleted_r] watching_r_with_a =
           watching_r_with_a\<lparr>pending := [cfg_r], notified := [[], [JStr ''a'']]\<rparr>"
    by (simp add: onDidFilesChanged_def onDidTaskFileChange_def refreshTasks_call_def
          getTaskLabels_def watching_r_with_a_def watching_r_def updated_r_def quiet_client_def)
  show ?thesis
    unfolding e
    by (simp add: getTaskLabels_def watching_r_with_a_simps deleted_r_def)
qed

section \<open>A document of the wrong shape\<close>

lemma shape_error_caught:
  assumes "tasks_absent_or_not_iterable doc"
  shows "(case get_prop doc ''tasks'' of
            Inl e \<Rightarrow> True
          | Inr ts \<Rightarrow> filterDuplicates ts lg = (Inl TypeError, lg))"
proof (cases "tasks_value doc")
  case None
  then show ?thesis
    by (cases doc) (simp_all add: filterDuplicates_def)
next
  case (Some v)
  then obtain kvs where d: "doc = JObj kvs" and m: "map_of kvs ''tasks'' = Some v"
    by (cases doc) simp_all
  from assms Some have "not_iterable v"
    by (simp add: tasks_absent_or_not_iterable_def)
  then have "filterDuplicates v lg = (Inl TypeError, lg)"
    by (cases v) (simp_all add: filterDuplicates_def)
  then show ?thesis by (simp add: d m)
qed

text \<open>
  C6, as the code has it. When the file parses without syntax error and the document has
  no \<^verbatim>\<open>"tasks"\<close> key (or is no object at all), or the value under the key cannot be
  iterated (\<^verbatim>\<open>null\<close>, a boolean, a number, an object), the \<^verbatim>\<open>TypeError\<close> is caught
  in \<^verbatim>\<open>readTasks\<close>: the refresh logs one "Error(s) reading config file" line, leaves
  the map as it was and raises nothing.
\<close>

theorem shape_error_keeps_tasksMap:
  assumes "fs_exists ev u" and "fs_resolveContent ev u = Some content"
    and "parse ev (stripComments ev content) = ([], doc)"
    and "tasks_absent_or_not_iterable doc"
  shows "tasksMap (refreshTasks_resume ev u s) = tasksMap s
       \<and> logger (refreshTasks_resume ev u s) = logger s @ [Error_reading u]
       \<and> unhandled (refreshTasks_resume ev u s) = unhandled s"
proof -
  have "readTasks ev u (logger s) = (None, logger s @ [Error_reading u])"
    using assms(1-3) shape_error_caught [OF assms(4), of "logger s"]
    by (auto simp: readTasks_def split: sum.splits)
  then show ?thesis
    by (simp add: refreshTasks_resume_def)
qed

text \<open>A document \<^verbatim>\<open>{"tasks": 5}\<close>: task \<^verbatim>\<open>a\<close> stays, one error is logged.\<close>

theorem shape_error_keeps_tasksMap_witness:
  "fs_exists env_tasks_number cfg_r
   \<and> fs_resolveContent env_tasks_number cfg_r = Some ''tasks: 5''
   \<and> parse env_tasks_number (stripComments env_tasks_number ''tasks: 5'') = ([], JObj [(''tasks'', JNum 5)])
   \<and> tasks_absent_or_not_iterable (JObj [(''tasks'', JNum 5)])
   \<and> tasksMap (refreshTasks_resume env_tasks_number cfg_r watching_r_with_a) = [(JStr ''a'', task_a)]
   \<and> logger (refreshTasks_resume env_tasks_number cfg_r watching_r_with_a) =
       [Warn_missing ''tasks.json'' ''r'', Error_reading cfg_r]"
proof -
  have h1: "fs_exists env_tasks_number cfg_r"
    and h2: "fs_resolveContent env_tasks_number cfg_r = Some ''tasks: 5''"
    and h3: "parse env_tasks_number (stripComments env_tasks_number ''tasks: 5'') = ([], JObj [(''tasks'', JNum 5)])"
    by (simp_all add: env_tasks_number_def)
  have h4: "tasks_absent_or_not_iterable (JObj [(''tasks'', JNum 5)])"
    by (simp add: tasks_absent_or_not_iterable_def)
  show ?thesis
    using shape_error_keeps_tasksMap [OF h1 h2 h3 h4, of watching_r_with_a] h1 h2 h3 h4
    by (simp add: watching_r_with_a_simps)
qed

text \<open>
  C6 as stated fails: for a document \<^verbatim>\<open>{"tasks": "x"}\<close>, whose \<^verbatim>\<open>tasks\<close> value is
  a string and not a sequence of task objects, the loop runs through the characters of the
  string; the refresh logs nothing and replaces the map, which held task \<^verbatim>\<open>a\<close>, by one
  entry with the key \<^verbatim>\<open>undefined\<close>.
\<close>

theorem tasks_string_replaces_map_counterexample:
  "fs_exists env_tasks_string cfg_r
   \<and> fs_resolveContent env_tasks_string cfg_r = Some ''tasks: x''
   \<and> parse env_tasks_string (stripComments env_tasks_string ''tasks: x'') = ([], JObj [(''tasks'', JStr ''x'')])
   \<and> tasksMap watching_r_with_a = [(JStr ''a'', task_a)]
   \<and> tasksMap (refreshTasks_resume env_tasks_string cfg_r watching_r_with_a) = [(JUndefined, JStr ''x'')]
   \<and> logger (refreshTasks_resume env_tasks_string cfg_r watching_r_with_a) = logger watching_r_with_a"
proof -
  have e: "fs_exists env_tasks_string cfg_r"
    "fs_resolveContent env_tasks_string cfg_r = Some ''tasks: x''"
    "parse env_tasks_string (stripComments env_tasks_string ''tasks: x'') = ([], JObj [(''tasks'', JStr ''x'')])"
    by (simp_all add: env_tasks_string_def)
  have r: "readTasks env_tasks_string cfg_r lg = (Some [JStr ''x''], lg)" for lg
    by (simp add: readTasks_def e filterDuplicates_def)
  show ?thesis
    by (simp add: refreshTasks_resume_def r watching_r_with_a_simps e)
qed

section \<open>The invariant of the task map\<close>

lemma strict_eq_same: "strict_eq a b \<Longrightarrow> a = b"
  by (cases a; cases b) simp_all

lemma keys_are_labels_Map_set:
  "keys_are_labels m \<Longrightarrow> get_prop t ''label'' = Inr k \<Longrightarrow> keys_are_labels (Map_set k t m)"
  by (induction m) (auto simp: keys_are_labels_def dest: strict_eq_same)

lemma keys_are_labels_set_tasks:
  "keys_are_labels (tasksMap s) \<Longrightarrow> keys_are_labels (tasksMap (set_tasks ts s))"
proof (induction ts arbitrary: s)
  case Nil
  then show ?case by simp
next
  case (Cons t ts)
  show ?case
  proof (cases "get_prop t ''label''")
    case (Inl e)
    with Cons.prems show ?thesis by simp
  next
    case (Inr l)
    have "keys_are_labels (tasksMap (s\<lparr>tasksMap := Map_set l t (tasksMap s)\<rparr>))"
      using Cons.prems Inr by (simp add: keys_are_labels_Map_set)
    from Cons.IH [OF this] Inr show ?thesis by simp
  qed
qed

lemma keys_are_labels_refreshTasks_resume:
  assumes "keys_are_labels (tasksMap s)"
  shows "keys_are_labels (tasksMap (refreshTasks_resume ev u s))"
proof -
  obtain r lg where rt: "readTasks ev u (logger s) = (r, lg)"
    by (cases "readTasks ev u (logger s)")
  show ?thesis
  proof (cases r)
    case None
    with rt assms show ?thesis by (simp add: refreshTasks_resume_def)
  next
    case (Some ts)
    have "keys_are_labels (tasksMap (s\<lparr>logger := lg, tasksMap := []\<rparr>))"
      by (simp add: keys_are_labels_def)
    from keys_are_labels_set_tasks [OF this] rt Some show ?thesis
      by (simp add: refreshTasks_resume_def)
  qed
qed

lemma keys_are_labels_watch_call:
  "keys_are_labels (tasksMap s) \<Longrightarrow>
   keys_are_labels (tasksMap (snd (watchConfigurationFile_call ev rootUri s)))"
  by (simp add: watchConfigurationFile_call_def watchConfigurationFile_exists_def Let_def)

lemma keys_are_labels_watch_resume:
  "keys_are_labels (tasksMap s) \<Longrightarrow>
   keys_are_labels (tasksMap (snd (watchConfigurationFile_resume ev rootUri s)))"
  by (simp add: watchConfigurationFile_resume_def watchConfigurationFile_exists_def
        watchFileChanges_def refreshTasks_call_def Let_def split: option.splits)

lemma keys_are_labels_step:
  assumes "keys_are_labels (tasksMap s)"
  shows "keys_are_labels (tasksMap (step op s))"
proof (cases op)
  case (SetClient c)
  with assms show ?thesis by (simp add: setClient_def)
next
  case Dispose
  then show ?thesis by (simp add: dispose_def keys_are_labels_def)
next
  case (WatchConfigurationFile ev rootUri)
  with assms keys_are_labels_watch_call [of s ev rootUri]
    keys_are_labels_watch_resume [of "snd (watchConfigurationFile_call ev rootUri s)" ev rootUri]
  show ?thesis
    by (cases "watchConfigurationFile_call ev rootUri s")
       (auto simp: watchConfigurationFile_def split: option.splits)
next
  case (WatchConfigurationFile_call ev rootUri)
  with assms show ?thesis by (simp add: keys_are_labels_watch_call)
next
  case (WatchConfigurationFile_resume ev rootUri)
  with assms show ?thesis by (simp add: keys_are_labels_watch_resume)
next
  case (DidFilesChanged changes)
  with assms show ?thesis
    by (auto simp: onDidFilesChanged_def onDidTaskFileChange_def refreshTasks_call_def Let_def
                   keys_are_labels_def
             split: option.splits)
next
  case (Resume ev i)
  with assms show ?thesis
    by (simp add: resume_def keys_are_labels_refreshTasks_resume)
qed

lemma keys_are_labels_fold_step:
  "keys_are_labels (tasksMap s) \<Longrightarrow> keys_are_labels (tasksMap (fold step ops s))"
  by (induction ops arbitrary: s) (simp_all add: keys_are_labels_step)

lemma Map_get_label:
  "keys_are_labels m \<Longrightarrow> Map_get k m = Some t \<Longrightarrow> get_prop t ''label'' = Inr k"
  by (induction m) (auto simp: keys_are_labels_def split: if_splits dest: strict_eq_same)

text \<open>
  C10. Every operation (a public method, as a whole or in its parts, a batch of changes, a
  refresh job running to its end) keeps every key of the task map equal to the label of the task stored under it, and
  so does every sequence of operations; the map of a new instance is empty. In a state with
  that property, \<open>getTask l\<close> is absent or a task whose label is \<open>l\<close>.
\<close>

theorem keys_are_labels_invariant:
  assumes "keys_are_labels (tasksMap s)"
  shows "keys_are_labels (tasksMap (step op s))
       \<and> keys_are_labels (tasksMap (fold step ops s))
       \<and> keys_are_labels (tasksMap (new_TaskConfigurations w))
       \<and> (\<forall>l. getTask l (fold step ops s) = None
             \<or> (\<exists>t. getTask l (fold step ops s) = Some t \<and> get_prop t ''label'' = Inr (JStr l)))"
proof (intro conjI allI)
  show "keys_are_labels (tasksMap (step op s))"
    using assms by (rule keys_are_labels_step)
  show inv: "keys_are_labels (tasksMap (fold step ops s))"
    using assms by (rule keys_are_labels_fold_step)
  show "keys_are_labels (tasksMap (new_TaskConfigurations w))"
    by (simp add: keys_are_labels_def new_TaskConfigurations_def)
  fix l
  show "getTask l (fold step ops s) = None
      \<or> (\<exists>t. getTask l (fold step ops s) = Some t \<and> get_prop t ''label'' = Inr (JStr l))"
  proof (cases "Map_get (JStr l) (tasksMap (fold step ops s))")
    case None
    then show ?thesis by (simp add: getTask_def Map_has_def)
  next
    case (Some t)
    from Map_get_label [OF inv Some] Some show ?thesis
      by (simp add: getTask_def Map_has_def)
  qed
qed

text \<open>
  From the instance watching \<^verbatim>\<open>r\<close>: after the file has appeared and the refresh has
  run, \<open>getTask ''a''\<close> is the task labelled \<^verbatim>\<open>a\<close>.
\<close>

theorem keys_are_labels_invariant_witness:
  "keys_are_labels (tasksMap watching_r)
   \<and> keys_are_labels (tasksMap (fold step [DidFilesChanged [created_r], Resume env_one_task 0] watching_r))
   \<and> getTask ''a'' (fold step [DidFilesChanged [created_r], Resume env_one_task 0] watching_r) = Some task_a
   \<and> get_prop task_a ''label'' = Inr (JStr ''a'')"
proof -
  have h: "keys_are_labels (tasksMap watching_r)"
    by (simp add: keys_are_labels_def watching_r_def)
  have g: "getTask ''a'' (fold step [DidFilesChanged [created_r], Resume env_one_task 0] watching_r) =
           Some task_a"
    unfolding watching_r_with_a_reachable by (rule watching_r_with_a_labels(2))
  from keys_are_labels_invariant [OF h, of _ "[DidFilesChanged [created_r], Resume env_one_task 0]"]
  have "keys_are_labels (tasksMap (fold step [DidFilesChanged [created_r], Resume env_one_task 0] watching_r))"
    by blast
  with h g task_a_label show ?thesis
    by (simp only: simp_thms)
qed

end
